theory Spec2Isabelle
  imports Complex_Main "HOL-Library.AList"
begin

section \<open>Values stored in a frontmatter block\<close>

text \<open>
  The callback of \<^verbatim>\<open>processFrontMatter\<close> receives a \<^verbatim>\<open>Record<string, unknown>\<close>:
  whatever the YAML parser produced. The run-time values are strings, numbers,
  booleans, arrays, nested objects and \<^verbatim>\<open>null\<close>. The payload of a number is a
  double in the source; no function below computes with it, so it is carried
  as a real. Reading a name that the block does not own gives what the block
  inherits from \<^verbatim>\<open>Object.prototype\<close> under that name (a builtin function, or
  the prototype itself for \<^verbatim>\<open>__proto__\<close>), and \<^verbatim>\<open>undefined\<close> for any other name.
\<close>

datatype jsvalue =
    JString string
  | JNumber real
  | JBoolean bool
  | JArray "jsvalue list"
  | JObject "(string \<times> jsvalue) list"
  | JNull
  | JInherited string
  | JUndefined

text \<open>\<^verbatim>\<open>PropertyValueType = 'text' | 'number' | 'checkbox' | 'date' | 'list'\<close>\<close>

datatype PropertyValueType = Text | Number | Checkbox | Date | List

subsection \<open>The regular expression of the date test\<close>

text \<open>
  \<^verbatim>\<open>/^\d{4}-\d{2}-\d{2}$/\<close> is a sequence of atoms with fixed repetition counts,
  anchored at both ends (no \<^verbatim>\<open>m\<close> flag). \<^verbatim>\<open>\d\<close> is \<^verbatim>\<open>[0-9]\<close>.
\<close>

datatype regex_atom = Digit | Lit char

type_synonym regex = "(regex_atom \<times> nat) list"

definition isDigit :: "char \<Rightarrow> bool" where
  "isDigit c = (c \<in> set ''0123456789'')"

fun atom_matches :: "regex_atom \<Rightarrow> char \<Rightarrow> bool" where
  "atom_matches Digit c = isDigit c"
| "atom_matches (Lit d) c = (c = d)"

fun regex_test :: "regex \<Rightarrow> string \<Rightarrow> bool" where
  "regex_test [] s = (s = [])"
| "regex_test ((a, n) # r) s =
     (n \<le> length s \<and> list_all (atom_matches a) (take n s) \<and> regex_test r (drop n s))"

definition date_regex :: regex where
  "date_regex = [(Digit, 4), (Lit CHR ''-'', 1), (Digit, 2), (Lit CHR ''-'', 1), (Digit, 2)]"

subsection \<open>Type guard and type inference (property-utils.ts)\<close>

fun isString :: "jsvalue \<Rightarrow> bool" where
  "isString (JString s) = True"
| "isString v = False"

text \<open>
  \<^verbatim>\<open>isPropertyValue\<close>: a string, a number, a boolean, or an array whose items are all
  strings. Anything else (nested objects, mixed arrays, \<^verbatim>\<open>null\<close>, functions,
  \<^verbatim>\<open>undefined\<close>) is rejected.
\<close>

fun isPropertyValue :: "jsvalue \<Rightarrow> bool" where
  "isPropertyValue (JString s) = True"
| "isPropertyValue (JNumber n) = True"
| "isPropertyValue (JBoolean b) = True"
| "isPropertyValue (JArray items) = list_all isString items"
| "isPropertyValue v = False"

fun detectValueType :: "jsvalue \<Rightarrow> PropertyValueType" where
  "detectValueType (JBoolean b) = Checkbox"
| "detectValueType (JNumber n) = Number"
| "detectValueType (JArray items) = List"
| "detectValueType (JString s) = (if regex_test date_regex s then Date else Text)"
| "detectValueType v = Text"

fun getDefaultValueForType :: "PropertyValueType \<Rightarrow> jsvalue" where
  "getDefaultValueForType Checkbox = JBoolean False"
| "getDefaultValueForType Number = JNumber 0"
| "getDefaultValueForType List = JArray []"
| "getDefaultValueForType Date = JString ''''"
| "getDefaultValueForType Text = JString ''''"

section \<open>Frontmatter blocks and the document store\<close>

text \<open>
  A frontmatter block is a JavaScript object with string keys: an ordered
  mapping, held as the list of its own properties. The rule that lists
  integer-like keys first is outside the model: the theorems below read a
  block through \<^const>\<open>map_of\<close>.
\<close>

type_synonym frontmatter = "(string \<times> jsvalue) list"

text \<open>An own property (also \<^verbatim>\<open>Map.prototype.has\<close>, which knows no inheritance).\<close>

definition hasOwn :: "string \<Rightarrow> (string \<times> 'v) list \<Rightarrow> bool" where
  "hasOwn k fm = (k \<in> set (map fst fm))"

text \<open>The property names every plain object inherits from \<^verbatim>\<open>Object.prototype\<close>.\<close>

definition objectPrototypeKeys :: "string list" where
  "objectPrototypeKeys =
     [''constructor'', ''__defineGetter__'', ''__defineSetter__'', ''hasOwnProperty'',
      ''__lookupGetter__'', ''__lookupSetter__'', ''isPrototypeOf'', ''propertyIsEnumerable'',
      ''toString'', ''valueOf'', ''__proto__'', ''toLocaleString'']"

text \<open>
  \<^verbatim>\<open>key in frontmatter\<close>: true for an own property and for an inherited name.
\<close>

definition hasKey :: "string \<Rightarrow> frontmatter \<Rightarrow> bool" where
  "hasKey k fm = (hasOwn k fm \<or> k \<in> set objectPrototypeKeys)"

text \<open>Reading \<^verbatim>\<open>frontmatter[key]\<close>.\<close>

definition getProp :: "frontmatter \<Rightarrow> string \<Rightarrow> jsvalue" where
  "getProp fm k =
     (case map_of fm k of
        Some v \<Rightarrow> v
      | None \<Rightarrow> if k \<in> set objectPrototypeKeys then JInherited k else JUndefined)"

text \<open>
  The assignment \<^verbatim>\<open>frontmatter[key] = value\<close> overwrites an own property in place
  and otherwise appends one, also under an inherited name, which it shadows.
  The one exception is \<^verbatim>\<open>__proto__\<close> on a block that does not own it: the
  assignment runs the inherited setter and creates no property. (The setter may
  replace the prototype; no callback tests a key after such an assignment, and
  the next transaction starts from a fresh object.) \<^verbatim>\<open>delete frontmatter[key]\<close>
  is \<^const>\<open>AList.delete\<close>: it removes an own property and nothing else.
\<close>

definition setProp :: "string \<Rightarrow> jsvalue \<Rightarrow> frontmatter \<Rightarrow> frontmatter" where
  "setProp k v fm = (if k = ''__proto__'' \<and> \<not> hasOwn k fm then fm else AList.update k v fm)"

datatype TFile = TFile (path: string) (extension: string)

datatype TAbstractFile = AFile TFile | AFolder TFolder
  and TFolder = TFolder (folderPath: string) (children: "TAbstractFile list")

text \<open>
  The vault gives every file path its current block; a file with no frontmatter
  has the empty block. \<open>None\<close> marks a document whose transaction fails.
\<close>

type_synonym vault = "string \<Rightarrow> frontmatter option"

text \<open>
  Modelled from the spec: \<^verbatim>\<open>app.fileManager.processFrontMatter\<close> belongs to the
  host application. Following section 6 (\<^verbatim>\<open>transactMetadataBlock\<close>) and the failure
  policy of section 4.3, a failure happens when the document is opened, before the
  callback runs; otherwise the callback mutates the block and the result is
  committed. The callback's second component is the new value of the variable it
  captures (\<^verbatim>\<open>added\<close>, \<^verbatim>\<open>removed\<close>, \<^verbatim>\<open>renamed\<close>, \<^verbatim>\<open>result\<close>, \<^verbatim>\<open>properties\<close>).
  The vault keeps the block as the callback left it; how the host writes a
  value that is not YAML data is outside the model.
\<close>

definition processFrontMatter ::
  "vault \<Rightarrow> TFile \<Rightarrow> (frontmatter \<Rightarrow> frontmatter \<times> 'r) \<Rightarrow> (vault \<times> 'r) option" where
  "processFrontMatter vault file fn =
     (case vault (path file) of
        None \<Rightarrow> None
      | Some fm \<Rightarrow> (case fn fm of (fm', r) \<Rightarrow> Some (vault(path file \<mapsto> fm'), r)))"

section \<open>The mutation engine (property-utils.ts)\<close>

record PropertyDefinition =
  def_key :: string
  def_value :: jsvalue
  def_type :: PropertyValueType

subsection \<open>getPropertiesFromFile\<close>

fun getProperties_loop :: "frontmatter \<Rightarrow> frontmatter \<Rightarrow> frontmatter" where
  "getProperties_loop [] properties = properties"
| "getProperties_loop ((key, val) # entries) properties =
     (if isPropertyValue val
      then getProperties_loop entries (setProp key val properties)
      else getProperties_loop entries properties)"

definition getPropertiesFromFile :: "vault \<Rightarrow> TFile \<Rightarrow> frontmatter" where
  "getPropertiesFromFile vault file =
     (case processFrontMatter vault file (\<lambda>fm. (fm, getProperties_loop fm [])) of
        None \<Rightarrow> []
      | Some (vault', properties) \<Rightarrow> properties)"

subsection \<open>addPropertiesToFile\<close>

fun addProperties_loop ::
  "PropertyDefinition list \<Rightarrow> frontmatter \<times> nat \<Rightarrow> frontmatter \<times> nat" where
  "addProperties_loop [] (fm, added) = (fm, added)"
| "addProperties_loop (prop # props) (fm, added) =
     (if def_key prop = [] then addProperties_loop props (fm, added)
      else if \<not> hasKey (def_key prop) fm
      then addProperties_loop props (setProp (def_key prop) (def_value prop) fm, added + 1)
      else addProperties_loop props (fm, added))"

definition addPropertiesToFile ::
  "vault \<Rightarrow> TFile \<Rightarrow> PropertyDefinition list \<Rightarrow> vault \<times> nat" where
  "addPropertiesToFile vault file properties =
     (case processFrontMatter vault file (\<lambda>fm. addProperties_loop properties (fm, 0)) of
        None \<Rightarrow> (vault, 0)
      | Some r \<Rightarrow> r)"

subsection \<open>removePropertiesFromFile\<close>

fun removeProperties_loop :: "string list \<Rightarrow> frontmatter \<times> nat \<Rightarrow> frontmatter \<times> nat" where
  "removeProperties_loop [] (fm, removed) = (fm, removed)"
| "removeProperties_loop (key # keys) (fm, removed) =
     (if hasKey key fm
      then removeProperties_loop keys (AList.delete key fm, removed + 1)
      else removeProperties_loop keys (fm, removed))"

definition removePropertiesFromFile :: "vault \<Rightarrow> TFile \<Rightarrow> string list \<Rightarrow> vault \<times> nat" where
  "removePropertiesFromFile vault file keys =
     (case processFrontMatter vault file (\<lambda>fm. removeProperties_loop keys (fm, 0)) of
        None \<Rightarrow> (vault, 0)
      | Some r \<Rightarrow> r)"

subsection \<open>renamePropertyKey\<close>

definition renamePropertyKey_callback :: "string \<Rightarrow> string \<Rightarrow> frontmatter \<Rightarrow> frontmatter \<times> bool" where
  "renamePropertyKey_callback oldKey newKey fm =
     (if hasKey oldKey fm
      then (AList.delete oldKey (setProp newKey (getProp fm oldKey) fm), True)
      else (fm, False))"

definition renamePropertyKey :: "vault \<Rightarrow> TFile \<Rightarrow> string \<Rightarrow> string \<Rightarrow> vault \<times> bool" where
  "renamePropertyKey vault file oldKey newKey =
     (case processFrontMatter vault file (renamePropertyKey_callback oldKey newKey) of
        None \<Rightarrow> (vault, False)
      | Some r \<Rightarrow> r)"

subsection \<open>updatePropertyValue\<close>

text \<open>The result \<^verbatim>\<open>'updated' | 'added' | 'none'\<close>.\<close>

datatype UpdateResult = Updated | Added | NoChange

definition updatePropertyValue_callback ::
  "string \<Rightarrow> jsvalue \<Rightarrow> bool \<Rightarrow> frontmatter \<Rightarrow> frontmatter \<times> UpdateResult" where
  "updatePropertyValue_callback key val addIfMissing fm =
     (if hasKey key fm then (setProp key val fm, Updated)
      else if addIfMissing then (setProp key val fm, Added)
      else (fm, NoChange))"

definition updatePropertyValue ::
  "vault \<Rightarrow> TFile \<Rightarrow> string \<Rightarrow> jsvalue \<Rightarrow> bool \<Rightarrow> vault \<times> UpdateResult" where
  "updatePropertyValue vault file key val addIfMissing =
     (case processFrontMatter vault file (updatePropertyValue_callback key val addIfMissing) of
        None \<Rightarrow> (vault, NoChange)
      | Some r \<Rightarrow> r)"

section \<open>Folder traversal (property-utils.ts)\<close>

text \<open>
  The loop over \<^verbatim>\<open>folder.children\<close> pushes a Markdown file, or spreads the
  result of the recursive call on a subfolder, in the order of the children.
  \<^verbatim>\<open>depthLevel\<close> and \<^verbatim>\<open>currentDepth\<close> are integers (the callers pass \<^verbatim>\<open>parseInt\<close>
  of a menu entry, and the default 0).
\<close>

fun getFilesFromFolder :: "TFolder \<Rightarrow> bool \<Rightarrow> int \<Rightarrow> int \<Rightarrow> TFile list" where
  "getFilesFromFolder (TFolder p cs) includeSubfolders depthLevel currentDepth =
     concat (map (\<lambda>child. case child of
         AFile f \<Rightarrow> if extension f = ''md'' then [f] else []
       | AFolder d \<Rightarrow>
           if includeSubfolders \<and> (depthLevel = -1 \<or> currentDepth < depthLevel)
           then getFilesFromFolder d includeSubfolders depthLevel (currentDepth + 1)
           else []) cs)"

section \<open>Aggregation (base-properties-modal.ts)\<close>

record ExistingProperty =
  ex_key :: string
  ex_values :: "jsvalue list"
  ex_types :: "PropertyValueType list"

text \<open>
  \<^verbatim>\<open>Set.prototype.add\<close>: a set keeps insertion order and compares primitives by
  value, arrays and objects by identity. Every array comes from a fresh parse of
  a block, so it is never found in the set; an inherited builtin is one shared
  object, found again like a primitive.
\<close>

fun isPrimitive :: "jsvalue \<Rightarrow> bool" where
  "isPrimitive (JArray items) = False"
| "isPrimitive (JObject members) = False"
| "isPrimitive v = True"

definition valuesAdd :: "jsvalue \<Rightarrow> jsvalue list \<Rightarrow> jsvalue list" where
  "valuesAdd v vs = (if isPrimitive v \<and> v \<in> set vs then vs else vs @ [v])"

definition typesAdd :: "PropertyValueType \<Rightarrow> PropertyValueType list \<Rightarrow> PropertyValueType list" where
  "typesAdd t ts = (if t \<in> set ts then ts else ts @ [t])"

type_synonym existingProperties = "(string \<times> ExistingProperty) list"

text \<open>
  The inner loop of \<^verbatim>\<open>loadExistingProperties\<close>: skip \<^verbatim>\<open>tags\<close>; create the entry
  when the map lacks the key; then add the value and its detected type.
\<close>

fun loadEntries :: "frontmatter \<Rightarrow> existingProperties \<Rightarrow> existingProperties" where
  "loadEntries [] existing = existing"
| "loadEntries ((key, val) # entries) existing =
     (if key = ''tags'' then loadEntries entries existing
      else
        let prop = (case map_of existing key of
                      None \<Rightarrow> \<lparr>ex_key = key, ex_values = [], ex_types = []\<rparr>
                    | Some p \<Rightarrow> p)
        in loadEntries entries
             (AList.update key
                (prop\<lparr>ex_values := valuesAdd val (ex_values prop),
                       ex_types := typesAdd (detectValueType val) (ex_types prop)\<rparr>)
                existing))"

fun loadFiles :: "vault \<Rightarrow> TFile list \<Rightarrow> existingProperties \<Rightarrow> existingProperties" where
  "loadFiles vault [] existing = existing"
| "loadFiles vault (file # files) existing =
     loadFiles vault files (loadEntries (getPropertiesFromFile vault file) existing)"

definition loadExistingProperties :: "vault \<Rightarrow> TFile list \<Rightarrow> existingProperties" where
  "loadExistingProperties vault files = loadFiles vault files []"

section \<open>Notices\<close>

text \<open>A counter inside a template literal, and \<^verbatim>\<open>Array.prototype.join\<close>.\<close>

function numberToString :: "nat \<Rightarrow> string" where
  "numberToString n =
     (if n < 10 then [''0123456789'' ! n]
      else numberToString (n div 10) @ [''0123456789'' ! (n mod 10)])"
  by pat_completeness auto
termination
  by (relation "measure id") auto

declare numberToString.simps [simp del]

fun join :: "string \<Rightarrow> string list \<Rightarrow> string" where
  "join sep [] = []"
| "join sep [x] = x"
| "join sep (x # y # r) = x @ sep @ join sep (y # r)"

text \<open>
  The end of the rename and edit forms:
  \<^verbatim>\<open>messageParts.length > 0 ? `Properties: ${messageParts.join(', ')}` : 'No changes made'\<close>,
  where a counter's part is pushed when the counter is positive.
\<close>

definition summaryMessage :: "string list \<Rightarrow> string" where
  "summaryMessage messageParts =
     (if length messageParts > 0 then ''Properties: '' @ join '', '' messageParts
      else ''No changes made'')"

definition part :: "string \<Rightarrow> nat \<Rightarrow> string list" where
  "part label n = (if n > 0 then [label @ '' '' @ numberToString n] else [])"

section \<open>The batch forms\<close>

subsection \<open>AddPropertiesModal.handleSubmit\<close>

fun addFiles :: "PropertyDefinition list \<Rightarrow> TFile list \<Rightarrow> vault \<times> nat \<Rightarrow> vault \<times> nat" where
  "addFiles validProps [] (vault, successCount) = (vault, successCount)"
| "addFiles validProps (file # files) (vault, successCount) =
     (case addPropertiesToFile vault file validProps of
        (vault', result) \<Rightarrow>
          addFiles validProps files
            (vault', if result > 0 then successCount + 1 else successCount))"

definition add_handleSubmit ::
  "PropertyDefinition list \<Rightarrow> TFile list \<Rightarrow> vault \<Rightarrow> vault \<times> string" where
  "add_handleSubmit propertiesToAdd files vault =
     (let validProps = filter (\<lambda>p. length (def_key p) > 0) propertiesToAdd in
      if length validProps = 0 then (vault, ''Please add at least one property with a key'')
      else
        case addFiles validProps files (vault, 0) of
          (vault', successCount) \<Rightarrow>
            (vault', ''Added '' @ numberToString (length validProps) @ '' property(ies) to ''
                       @ numberToString successCount @ '' file(s)''))"

subsection \<open>RemovePropertiesModal.handleSubmit\<close>

fun removeFiles :: "string list \<Rightarrow> TFile list \<Rightarrow> vault \<times> nat \<Rightarrow> vault \<times> nat" where
  "removeFiles keysToRemove [] (vault, successCount) = (vault, successCount)"
| "removeFiles keysToRemove (file # files) (vault, successCount) =
     (case removePropertiesFromFile vault file keysToRemove of
        (vault', removed) \<Rightarrow>
          removeFiles keysToRemove files
            (vault', if removed > 0 then successCount + 1 else successCount))"

text \<open>\<^verbatim>\<open>selectedKeys\<close> is a set of strings; the list holds it in insertion order.\<close>

definition remove_handleSubmit :: "string list \<Rightarrow> TFile list \<Rightarrow> vault \<Rightarrow> vault \<times> string" where
  "remove_handleSubmit selectedKeys files vault =
     (if length selectedKeys = 0 then (vault, ''Please select at least one property to remove'')
      else
        case removeFiles selectedKeys files (vault, 0) of
          (vault', successCount) \<Rightarrow>
            (vault', ''Removed '' @ numberToString (length selectedKeys) @ '' property(ies) from ''
                       @ numberToString successCount @ '' file(s)''))"

subsection \<open>RenamePropertiesModal.handleSubmit\<close>

record PropertyRename =
  rename_originalKey :: string
  rename_newKey :: string
  rename_enabled :: bool

definition enabledRenames :: "PropertyRename list \<Rightarrow> PropertyRename list" where
  "enabledRenames propertyRenames =
     filter (\<lambda>r. rename_enabled r \<and> rename_originalKey r \<noteq> rename_newKey r
                  \<and> length (rename_newKey r) > 0) propertyRenames"

text \<open>The state of the two loops: the vault, \<^verbatim>\<open>totalRenamed\<close> and \<^verbatim>\<open>totalAdded\<close>.\<close>

fun renameOne :: "bool \<Rightarrow> TFile \<Rightarrow> PropertyRename \<Rightarrow> vault \<times> nat \<times> nat \<Rightarrow> vault \<times> nat \<times> nat" where
  "renameOne addToFilesWithoutProperty file rename (vault, totalRenamed, totalAdded) =
     (case renamePropertyKey vault file (rename_originalKey rename) (rename_newKey rename) of
        (vault1, renamed) \<Rightarrow>
          if renamed then (vault1, totalRenamed + 1, totalAdded)
          else if addToFilesWithoutProperty then
            (case addPropertiesToFile vault1 file
                    [\<lparr>def_key = rename_newKey rename, def_value = JString '''', def_type = Text\<rparr>] of
               (vault2, added) \<Rightarrow>
                 (vault2, totalRenamed, if added > 0 then totalAdded + 1 else totalAdded))
          else (vault1, totalRenamed, totalAdded))"

definition renameFiles ::
  "bool \<Rightarrow> PropertyRename list \<Rightarrow> TFile list \<Rightarrow> vault \<times> nat \<times> nat \<Rightarrow> vault \<times> nat \<times> nat" where
  "renameFiles addToFilesWithoutProperty renames files st =
     fold (\<lambda>file. fold (renameOne addToFilesWithoutProperty file) renames) files st"

definition rename_handleSubmit ::
  "PropertyRename list \<Rightarrow> bool \<Rightarrow> TFile list \<Rightarrow> vault \<Rightarrow> vault \<times> string" where
  "rename_handleSubmit propertyRenames addToFilesWithoutProperty files vault =
     (if length (enabledRenames propertyRenames) = 0
      then (vault, ''Please select at least one property and change its name'')
      else
        case renameFiles addToFilesWithoutProperty (enabledRenames propertyRenames) files (vault, 0, 0) of
          (vault', totalRenamed, totalAdded) \<Rightarrow>
            (vault', summaryMessage (part ''renamed'' totalRenamed @ part ''added'' totalAdded)))"

subsection \<open>EditValuesModal.handleSubmit\<close>

record PropertyValueEdit =
  vedit_key :: string
  vedit_enabled :: bool
  vedit_type :: PropertyValueType
  vedit_value :: jsvalue
  vedit_originalValue :: jsvalue

fun editValueOne :: "bool \<Rightarrow> TFile \<Rightarrow> PropertyValueEdit \<Rightarrow> vault \<times> nat \<times> nat \<Rightarrow> vault \<times> nat \<times> nat" where
  "editValueOne addToFilesWithoutProperty file edit (vault, totalUpdated, totalAdded) =
     (case updatePropertyValue vault file (vedit_key edit) (vedit_value edit) addToFilesWithoutProperty of
        (vault', result) \<Rightarrow>
          if result = Updated then (vault', totalUpdated + 1, totalAdded)
          else if result = Added then (vault', totalUpdated, totalAdded + 1)
          else (vault', totalUpdated, totalAdded))"

definition editValuesFiles ::
  "bool \<Rightarrow> PropertyValueEdit list \<Rightarrow> TFile list \<Rightarrow> vault \<times> nat \<times> nat \<Rightarrow> vault \<times> nat \<times> nat" where
  "editValuesFiles addToFilesWithoutProperty edits files st =
     fold (\<lambda>file. fold (editValueOne addToFilesWithoutProperty file) edits) files st"

definition editValues_handleSubmit ::
  "PropertyValueEdit list \<Rightarrow> bool \<Rightarrow> TFile list \<Rightarrow> vault \<Rightarrow> vault \<times> string" where
  "editValues_handleSubmit propertyEdits addToFilesWithoutProperty files vault =
     (let enabledEdits = filter vedit_enabled propertyEdits in
      if length enabledEdits = 0 then (vault, ''Please select at least one property to update'')
      else
        case editValuesFiles addToFilesWithoutProperty enabledEdits files (vault, 0, 0) of
          (vault', totalUpdated, totalAdded) \<Rightarrow>
            (vault', summaryMessage (part ''updated'' totalUpdated @ part ''added'' totalAdded)))"

subsection \<open>EditPropertiesModal.handleSubmit\<close>

record PropertyEdit =
  edit_originalKey :: string
  edit_newKey :: string
  edit_enabled :: bool
  edit_updateValue :: bool
  edit_type :: PropertyValueType
  edit_value :: jsvalue
  edit_originalValue :: jsvalue

definition keyRenamed :: "PropertyEdit \<Rightarrow> bool" where
  "keyRenamed edit = (edit_originalKey edit \<noteq> edit_newKey edit \<and> length (edit_newKey edit) > 0)"

definition targetKey :: "PropertyEdit \<Rightarrow> string" where
  "targetKey edit = (if keyRenamed edit then edit_newKey edit else edit_originalKey edit)"

text \<open>
  The state of the two loops: the vault, \<^verbatim>\<open>totalRenamed\<close>, \<^verbatim>\<open>totalUpdated\<close>
  and \<^verbatim>\<open>totalAdded\<close>. The body first renames, then updates.
\<close>

fun editOne ::
  "bool \<Rightarrow> TFile \<Rightarrow> PropertyEdit \<Rightarrow> vault \<times> nat \<times> nat \<times> nat \<Rightarrow> vault \<times> nat \<times> nat \<times> nat" where
  "editOne addToFilesWithoutProperty file edit (vault, totalRenamed, totalUpdated, totalAdded) =
     (case (if keyRenamed edit then
              (case renamePropertyKey vault file (edit_originalKey edit) (edit_newKey edit) of
                 (vault', renamed) \<Rightarrow> (vault', if renamed then totalRenamed + 1 else totalRenamed))
            else (vault, totalRenamed)) of
        (vault1, totalRenamed') \<Rightarrow>
          if edit_updateValue edit then
            (case updatePropertyValue vault1 file (targetKey edit) (edit_value edit)
                    addToFilesWithoutProperty of
               (vault2, result) \<Rightarrow>
                 if result = Updated then (vault2, totalRenamed', totalUpdated + 1, totalAdded)
                 else if result = Added then (vault2, totalRenamed', totalUpdated, totalAdded + 1)
                 else (vault2, totalRenamed', totalUpdated, totalAdded))
          else (vault1, totalRenamed', totalUpdated, totalAdded))"

definition editFiles ::
  "bool \<Rightarrow> PropertyEdit list \<Rightarrow> TFile list \<Rightarrow> vault \<times> nat \<times> nat \<times> nat
     \<Rightarrow> vault \<times> nat \<times> nat \<times> nat" where
  "editFiles addToFilesWithoutProperty edits files st =
     fold (\<lambda>file. fold (editOne addToFilesWithoutProperty file) edits) files st"

definition hasValidEdit :: "PropertyEdit list \<Rightarrow> bool" where
  "hasValidEdit enabledEdits =
     list_ex (\<lambda>edit. edit_updateValue edit
        \<or> (edit_originalKey edit \<noteq> edit_newKey edit \<and> length (edit_newKey edit) > 0)) enabledEdits"

definition edit_handleSubmit ::
  "PropertyEdit list \<Rightarrow> bool \<Rightarrow> TFile list \<Rightarrow> vault \<Rightarrow> vault \<times> string" where
  \<open>edit_handleSubmit propertyEdits addToFilesWithoutProperty files vault =
     (let enabledEdits = filter edit_enabled propertyEdits in
      if length enabledEdits = 0 then (vault, ''Please enable at least one property to edit'')
      else if \<not> hasValidEdit enabledEdits
      then (vault, ''Please rename a property or enable "Update" to change values'')
      else
        case editFiles addToFilesWithoutProperty enabledEdits files (vault, 0, 0, 0) of
          (vault', totalRenamed, totalUpdated, totalAdded) \<Rightarrow>
            (vault', summaryMessage (part ''renamed'' totalRenamed @ part ''updated'' totalUpdated
                                       @ part ''added'' totalAdded)))\<close>

section \<open>Reference descriptions of the traversal\<close>

text \<open>
  These functions are not in the source. They restate what the specification
  says the traversal returns, so that the code can be compared with them.
\<close>

text \<open>The Markdown files that are children of the folder itself.\<close>

definition directMarkdownFiles :: "TFolder \<Rightarrow> TFile list" where
  "directMarkdownFiles folder =
     concat (map (\<lambda>child. case child of
         AFile f \<Rightarrow> if extension f = ''md'' then [f] else []
       | AFolder d \<Rightarrow> []) (children folder))"

text \<open>Every file of the subtree, once for each place it has in the tree.\<close>

fun subtreeFiles :: "TFolder \<Rightarrow> TFile list" where
  "subtreeFiles (TFolder p cs) =
     concat (map (\<lambda>child. case child of AFile f \<Rightarrow> [f] | AFolder d \<Rightarrow> subtreeFiles d) cs)"

text \<open>The Markdown files at most \<open>n\<close> folders below the starting folder.\<close>

fun filesWithin :: "nat \<Rightarrow> TFolder \<Rightarrow> TFile list" where
  "filesWithin n (TFolder p cs) =
     concat (map (\<lambda>child. case child of
         AFile f \<Rightarrow> if extension f = ''md'' then [f] else []
       | AFolder d \<Rightarrow> (case n of 0 \<Rightarrow> [] | Suc m \<Rightarrow> filesWithin m d)) cs)"

text \<open>
  The order "direct files first": all Markdown children of a folder, then the
  results of its subfolders, at every level.
\<close>

fun directFilesFirst :: "TFolder \<Rightarrow> bool \<Rightarrow> int \<Rightarrow> int \<Rightarrow> TFile list" where
  "directFilesFirst (TFolder p cs) includeSubfolders depthLevel currentDepth =
     concat (map (\<lambda>child. case child of
         AFile f \<Rightarrow> if extension f = ''md'' then [f] else []
       | AFolder d \<Rightarrow> []) cs)
     @ concat (map (\<lambda>child. case child of
         AFile f \<Rightarrow> []
       | AFolder d \<Rightarrow>
           if includeSubfolders \<and> (depthLevel = -1 \<or> currentDepth < depthLevel)
           then directFilesFirst d includeSubfolders depthLevel (currentDepth + 1)
           else []) cs)"

fun isFileChild :: "TAbstractFile \<Rightarrow> bool" where
  "isFileChild (AFile f) = True"
| "isFileChild (AFolder d) = False"

text \<open>A tree whose every folder lists its files before its subfolders.\<close>

fun filesBeforeFolders :: "TFolder \<Rightarrow> bool" where
  "filesBeforeFolders (TFolder p cs) =
     (cs = filter isFileChild cs @ filter (\<lambda>child. \<not> isFileChild child) cs
      \<and> list_all (\<lambda>child. case child of AFile f \<Rightarrow> True | AFolder d \<Rightarrow> filesBeforeFolders d) cs)"

text \<open>A folder whose subfolder comes before its own file.\<close>

definition sample_folder :: TFolder where
  "sample_folder =
     TFolder ''notes''
       [AFolder (TFolder ''notes/sub'' [AFile (TFile ''notes/sub/b.md'' ''md'')]),
        AFile (TFile ''notes/a.md'' ''md'')]"

text \<open>A folder that lists its files first, two levels deep.\<close>

definition sample_sorted_folder :: TFolder where
  "sample_sorted_folder =
     TFolder ''notes''
       [AFile (TFile ''notes/a.md'' ''md''),
        AFile (TFile ''notes/a.png'' ''png''),
        AFolder (TFolder ''notes/sub''
          [AFile (TFile ''notes/sub/b.md'' ''md''),
           AFolder (TFolder ''notes/sub/deep'' [AFile (TFile ''notes/sub/deep/c.md'' ''md'')])])]"

section \<open>Reference descriptions of the summary and of the reserved key\<close>

text \<open>
  Not in the source. A summary made of the non-zero counters only, with the
  explicit text when every counter is zero, as the specification words it.
\<close>

definition counterSummary :: "(string \<times> nat) list \<Rightarrow> string" where
  "counterSummary counters =
     (if list_all (\<lambda>(label, n). n = 0) counters then ''No changes made''
      else ''Properties: '' @ join '', ''
             (map (\<lambda>(label, n). label @ '' '' @ numberToString n)
                (filter (\<lambda>(label, n). n > 0) counters)))"

text \<open>
  Not in the source. The order the specification states for an edit that
  renames a key and updates its value: the rename first, then the update of
  the new key, with the three counters.
\<close>

definition renameThenUpdate ::
  "bool \<Rightarrow> TFile \<Rightarrow> PropertyEdit \<Rightarrow> vault \<times> nat \<times> nat \<times> nat \<Rightarrow> vault \<times> nat \<times> nat \<times> nat" where
  "renameThenUpdate addToFilesWithoutProperty doc edit st =
     (case st of (vault, totalRenamed, totalUpdated, totalAdded) \<Rightarrow>
        (case renamePropertyKey vault doc (edit_originalKey edit) (edit_newKey edit) of
           (vault1, renamed) \<Rightarrow>
             (case updatePropertyValue vault1 doc (edit_newKey edit) (edit_value edit)
                     addToFilesWithoutProperty of
                (vault2, result) \<Rightarrow>
                  (vault2,
                   if renamed then totalRenamed + 1 else totalRenamed,
                   if result = Updated then totalUpdated + 1 else totalUpdated,
                   if result = Added then totalAdded + 1 else totalAdded))))"

text \<open>What the documents of a vault hold under the reserved key \<^verbatim>\<open>tags\<close>.\<close>

definition tagsOf :: "vault \<Rightarrow> string \<Rightarrow> jsvalue option option" where
  "tagsOf vault p = map_option (\<lambda>fm. map_of fm ''tags'') (vault p)"

section \<open>Sample documents\<close>

text \<open>
  The documents of the scenarios: \<^verbatim>\<open>a.md\<close> with \<^verbatim>\<open>{status: "draft"}\<close>, and
  \<^verbatim>\<open>b.md\<close> with no frontmatter.
\<close>

definition a_md :: TFile where
  "a_md = TFile ''a.md'' ''md''"

definition b_md :: TFile where
  "b_md = TFile ''b.md'' ''md''"

definition sample_vault :: vault where
  "sample_vault = [''a.md'' \<mapsto> [(''status'', JString ''draft'')], ''b.md'' \<mapsto> []]"

text \<open>A document with an empty property: \<^verbatim>\<open>{status: null, title: "Plan"}\<close>.\<close>

definition c_md :: TFile where
  "c_md = TFile ''c.md'' ''md''"

definition null_vault :: vault where
  "null_vault = [''c.md'' \<mapsto> [(''status'', JNull), (''title'', JString ''Plan'')]]"

text \<open>A document with a tag list: \<^verbatim>\<open>{tags: ["inbox"], status: "draft"}\<close>.\<close>

definition t_md :: TFile where
  "t_md = TFile ''t.md'' ''md''"

definition tagged_vault :: vault where
  "tagged_vault = [''t.md'' \<mapsto> [(''tags'', JArray [JString ''inbox'']), (''status'', JString ''draft'')]]"

text \<open>An edit that renames \<^verbatim>\<open>status\<close> to \<^verbatim>\<open>state\<close> and sets the value.\<close>

definition sample_edit :: PropertyEdit where
  "sample_edit =
     \<lparr>edit_originalKey = ''status'', edit_newKey = ''state'', edit_enabled = True,
      edit_updateValue = True, edit_type = Text, edit_value = JString ''final'',
      edit_originalValue = JString ''draft''\<rparr>"

section \<open>Type inference\<close>

lemma regex_test_date_iff:
  "regex_test date_regex s \<longleftrightarrow>
     (\<exists>a b c d e f g h. s = [a, b, c, d, CHR ''-'', e, f, CHR ''-'', g, h]
        \<and> list_all isDigit [a, b, c, d, e, f, g, h])"
proof
  assume m: "regex_test date_regex s"
  then have len: "length s = 10"
    by (auto simp: date_regex_def)
  then obtain a b c d x e f y g h where s: "s = [a, b, c, d, x, e, f, y, g, h]"
    by (auto simp: length_Suc_conv eval_nat_numeral)
  with m show "\<exists>a b c d e f g h. s = [a, b, c, d, CHR ''-'', e, f, CHR ''-'', g, h]
        \<and> list_all isDigit [a, b, c, d, e, f, g, h]"
    by (simp add: date_regex_def eval_nat_numeral)
next
  assume "\<exists>a b c d e f g h. s = [a, b, c, d, CHR ''-'', e, f, CHR ''-'', g, h]
        \<and> list_all isDigit [a, b, c, d, e, f, g, h]"
  then show "regex_test date_regex s"
    by (auto simp: date_regex_def eval_nat_numeral)
qed

lemma hasOwn_map_of: "hasOwn k fm \<longleftrightarrow> map_of fm k \<noteq> None"
  by (simp add: hasOwn_def map_of_eq_None_iff)

lemma hasKey_ordinary: "k \<notin> set objectPrototypeKeys \<Longrightarrow> hasKey k fm \<longleftrightarrow> map_of fm k \<noteq> None"
  by (simp add: hasKey_def hasOwn_map_of)

lemma hasKey_own: "map_of fm k = Some v \<Longrightarrow> hasKey k fm"
  by (simp add: hasKey_def hasOwn_map_of)

lemma not_hasKey: "\<not> hasKey k fm \<Longrightarrow> \<not> hasOwn k fm \<and> k \<noteq> ''__proto__''"
  by (auto simp: hasKey_def objectPrototypeKeys_def)

lemma ordinary_not_proto: "k \<notin> set objectPrototypeKeys \<Longrightarrow> k \<noteq> ''__proto__''"
  by (auto simp: objectPrototypeKeys_def)

lemma setProp_own: "map_of fm k = Some w \<Longrightarrow> setProp k v fm = AList.update k v fm"
  by (simp add: setProp_def hasOwn_map_of)

lemma setProp_ordinary: "k \<noteq> ''__proto__'' \<Longrightarrow> setProp k v fm = AList.update k v fm"
  by (simp add: setProp_def)

lemma map_of_setProp_other: "k' \<noteq> k \<Longrightarrow> map_of (setProp k v fm) k' = map_of fm k'"
  by (simp add: setProp_def update_conv')

lemma getProp_own: "map_of fm k = Some v \<Longrightarrow> getProp fm k = v"
  by (simp add: getProp_def)

lemmas block_defs = hasKey_def hasOwn_def objectPrototypeKeys_def setProp_def getProp_def

lemma vault_upd_same: "vault p = Some fm \<Longrightarrow> vault(p \<mapsto> fm) = vault"
  by (rule fun_upd_idem) simp

text \<open>
  C2. Type inference is a function of the value alone. Every boolean is a
  checkbox, every number a number, every array a list; a string is a date
  exactly when it is four digits, a hyphen, two digits, a hyphen and two digits,
  and text otherwise; \<^verbatim>\<open>null\<close>, nested objects and whatever else reaches the
  function are text.
\<close>

theorem detectValueType_priority:
  "detectValueType (JBoolean b) = Checkbox
   \<and> detectValueType (JNumber n) = Number
   \<and> detectValueType (JArray items) = List
   \<and> detectValueType (JString s) =
       (if \<exists>y1 y2 y3 y4 m1 m2 d1 d2.
             s = [y1, y2, y3, y4, CHR ''-'', m1, m2, CHR ''-'', d1, d2]
             \<and> list_all isDigit [y1, y2, y3, y4, m1, m2, d1, d2]
        then Date else Text)
   \<and> detectValueType JNull = Text
   \<and> detectValueType (JObject members) = Text
   \<and> detectValueType (JInherited name) = Text
   \<and> detectValueType JUndefined = Text
   \<and> detectValueType v =
       (case v of JBoolean x \<Rightarrow> Checkbox | JNumber x \<Rightarrow> Number | JArray x \<Rightarrow> List
        | JString x \<Rightarrow> if regex_test date_regex x then Date else Text
        | JObject x \<Rightarrow> Text | JNull \<Rightarrow> Text | JInherited x \<Rightarrow> Text
        | JUndefined \<Rightarrow> Text)
   \<and> detectValueType v = detectValueType v"
  by (cases v) (simp_all add: regex_test_date_iff)

section \<open>Updating a value\<close>

text \<open>
  For a key that is not an inherited name the three outcomes are those of the
  return type: overwrite and \<^verbatim>\<open>'updated'\<close> on a block that has the key, insert
  and \<^verbatim>\<open>'added'\<close> when the key is absent and \<^verbatim>\<open>addIfMissing\<close> is set, \<^verbatim>\<open>'none'\<close>
  and no change otherwise.
\<close>

lemma updatePropertyValue_callback_ordinary:
  "k \<notin> set objectPrototypeKeys \<Longrightarrow>
     updatePropertyValue_callback k v addIfMissing fm =
       (if map_of fm k \<noteq> None then (AList.update k v fm, Updated)
        else if addIfMissing then (AList.update k v fm, Added)
        else (fm, NoChange))"
  by (auto simp: updatePropertyValue_callback_def hasKey_ordinary setProp_ordinary
        dest: ordinary_not_proto)

lemma updatePropertyValue_ordinary:
  "k \<notin> set objectPrototypeKeys \<Longrightarrow> vault (path doc) = Some fm \<Longrightarrow>
     updatePropertyValue vault doc k v addIfMissing =
       (if map_of fm k \<noteq> None then (vault(path doc \<mapsto> AList.update k v fm), Updated)
        else if addIfMissing then (vault(path doc \<mapsto> AList.update k v fm), Added)
        else (vault, NoChange))"
  by (auto simp: updatePropertyValue_def processFrontMatter_def
        updatePropertyValue_callback_ordinary vault_upd_same)

text \<open>
  C1. The callback tests the key with the \<^verbatim>\<open>in\<close> operator, which is also true
  for a name the block inherits. On the empty block of \<^verbatim>\<open>b.md\<close>, with the key
  \<^verbatim>\<open>constructor\<close> and \<^verbatim>\<open>addIfMissing\<close> false, \<^verbatim>\<open>updatePropertyValue\<close> writes the
  key and returns \<^verbatim>\<open>'updated'\<close>, where the key is absent and the outcome should
  be \<^verbatim>\<open>'none'\<close> with the block unchanged.
\<close>

theorem updatePropertyValue_inherited_key:
  "sample_vault (path b_md) = Some []
   \<and> map_of ([] :: frontmatter) ''constructor'' = None
   \<and> updatePropertyValue_callback ''constructor'' (JString ''x'') False []
       = ([(''constructor'', JString ''x'')], Updated)
   \<and> snd (updatePropertyValue sample_vault b_md ''constructor'' (JString ''x'') False) = Updated
   \<and> fst (updatePropertyValue sample_vault b_md ''constructor'' (JString ''x'') False) ''b.md''
       = Some [(''constructor'', JString ''x'')]"
  by (simp add: updatePropertyValue_def updatePropertyValue_callback_def processFrontMatter_def
        hasKey_def hasOwn_def objectPrototypeKeys_def setProp_def sample_vault_def b_md_def)

section \<open>Adding properties\<close>

lemma setProp_absent: "\<not> hasKey k fm \<Longrightarrow> setProp k v fm = AList.update k v fm"
  by (simp add: setProp_ordinary not_hasKey)

lemma add_loop_keeps:
  "map_of fm k = Some v \<Longrightarrow> map_of (fst (addProperties_loop props (fm, n))) k = Some v"
proof (induction props arbitrary: fm n)
  case Nil
  then show ?case by simp
next
  case (Cons p props)
  show ?case
  proof (cases "def_key p \<noteq> [] \<and> \<not> hasKey (def_key p) fm")
    case True
    then have "def_key p \<noteq> k"
      using Cons.prems hasKey_own [of fm k v] by auto
    then have "map_of (setProp (def_key p) (def_value p) fm) k = Some v"
      using Cons.prems by (simp add: map_of_setProp_other)
    from Cons.IH [OF this] True show ?thesis by simp
  next
    case False
    with Cons.IH [OF Cons.prems] show ?thesis by auto
  qed
qed

lemma length_update_absent:
  "\<not> hasOwn k fm \<Longrightarrow> length (AList.update k v fm) = Suc (length fm)"
  by (induction fm) (auto simp: hasOwn_def)

lemma length_setProp_absent:
  "\<not> hasKey k fm \<Longrightarrow> length (setProp k v fm) = Suc (length fm)"
  by (simp add: setProp_absent length_update_absent not_hasKey)

lemma add_loop_count:
  "length (fst (addProperties_loop props (fm, n))) + n
     = length fm + snd (addProperties_loop props (fm, n))"
proof (induction props arbitrary: fm n)
  case Nil
  show ?case by simp
next
  case (Cons p props)
  show ?case
  proof (cases "def_key p \<noteq> [] \<and> \<not> hasKey (def_key p) fm")
    case True
    with Cons.IH [of "setProp (def_key p) (def_value p) fm" "Suc n"]
    show ?thesis by (simp add: length_setProp_absent)
  next
    case False
    with Cons.IH [of fm n] show ?thesis by auto
  qed
qed

lemma add_loop_fixed:
  "(\<And>p. p \<in> set props \<Longrightarrow> def_key p \<noteq> [] \<Longrightarrow> hasKey (def_key p) fm)
     \<Longrightarrow> addProperties_loop props (fm, n) = (fm, n)"
  by (induction props arbitrary: fm n) auto

lemma hasOwn_update: "hasOwn k (AList.update k' v fm) \<longleftrightarrow> k = k' \<or> hasOwn k fm"
  by (auto simp: hasOwn_def dom_update)

lemma hasKey_setProp: "hasKey k (setProp k' v fm) \<longleftrightarrow> k = k' \<or> hasKey k fm"
  by (auto simp: hasKey_def setProp_def hasOwn_update objectPrototypeKeys_def)

lemma add_loop_mono:
  "hasKey k fm \<Longrightarrow> hasKey k (fst (addProperties_loop props (fm, n)))"
  by (induction props arbitrary: fm n) (auto simp: hasKey_setProp)

lemma add_loop_has:
  "p \<in> set props \<Longrightarrow> def_key p \<noteq> [] \<Longrightarrow> hasKey (def_key p) (fst (addProperties_loop props (fm, n)))"
  by (induction props arbitrary: fm n) (auto simp: hasKey_setProp add_loop_mono)

lemma add_loop_twice:
  "addProperties_loop props (fst (addProperties_loop props (fm, n)), m)
     = (fst (addProperties_loop props (fm, n)), m)"
  by (rule add_loop_fixed) (rule add_loop_has)

lemma add_loop_distinct:
  "distinct (map fst fm) \<Longrightarrow> distinct (map fst (fst (addProperties_loop props (fm, n))))"
  by (induction props arbitrary: fm n) (auto simp: distinct_update setProp_def)

text \<open>
  C3. \<^verbatim>\<open>addPropertiesToFile\<close> never overwrites: a key the block already has keeps
  its value. The count it returns is the number of entries the block gained. A
  second run with the same list (in particular a single-key list) leaves the
  block of the first run as it is and returns 0.
\<close>

theorem addProperties_untouched:
  "(map_of fm k = Some v \<longrightarrow> map_of (fst (addProperties_loop props (fm, 0))) k = Some v)
   \<and> length (fst (addProperties_loop props (fm, 0))) = length fm + snd (addProperties_loop props (fm, 0))
   \<and> addProperties_loop [p] (fst (addProperties_loop [p] (fm, 0)), 0)
       = (fst (addProperties_loop [p] (fm, 0)), 0)
   \<and> addProperties_loop props (fst (addProperties_loop props (fm, 0)), 0)
       = (fst (addProperties_loop props (fm, 0)), 0)
   \<and> addPropertiesToFile (fst (addPropertiesToFile vault file props)) file props
       = (fst (addPropertiesToFile vault file props), 0)
   \<and> (vault (path file) = Some fm \<longrightarrow>
        addPropertiesToFile vault file props =
          (vault(path file \<mapsto> fst (addProperties_loop props (fm, 0))),
           snd (addProperties_loop props (fm, 0))))"
proof -
  have twice: "addPropertiesToFile (fst (addPropertiesToFile vault file props)) file props
       = (fst (addPropertiesToFile vault file props), 0)"
  proof (cases "vault (path file)")
    case None
    then show ?thesis by (simp add: addPropertiesToFile_def processFrontMatter_def)
  next
    case (Some fm0)
    obtain fm1 n1 where r: "addProperties_loop props (fm0, 0) = (fm1, n1)"
      by (cases "addProperties_loop props (fm0, 0)")
    have "addProperties_loop props (fm1, 0) = (fm1, 0)"
      using add_loop_twice [of props fm0 0 0] r by simp
    with Some r show ?thesis
      by (simp add: addPropertiesToFile_def processFrontMatter_def)
  qed
  have count: "length (fst (addProperties_loop props (fm, 0))) = length fm + snd (addProperties_loop props (fm, 0))"
    using add_loop_count [of props fm 0] by simp
  have store: "vault (path file) = Some fm \<longrightarrow>
        addPropertiesToFile vault file props =
          (vault(path file \<mapsto> fst (addProperties_loop props (fm, 0))),
           snd (addProperties_loop props (fm, 0)))"
    by (simp add: addPropertiesToFile_def processFrontMatter_def split: prod.splits)
  show ?thesis
    using twice count store add_loop_keeps [of fm k v props 0] add_loop_twice [of "[p]" fm 0 0]
      add_loop_twice [of props fm 0 0]
    by blast
qed

theorem addProperties_untouched_witness:
  "map_of [(''status'', JString ''draft'')] ''status'' = Some (JString ''draft'')
   \<and> sample_vault (path a_md) = Some [(''status'', JString ''draft'')]
   \<and> addPropertiesToFile sample_vault a_md
         [\<lparr>def_key = ''status'', def_value = JString ''final'', def_type = Text\<rparr>,
          \<lparr>def_key = ''priority'', def_value = JString ''high'', def_type = Text\<rparr>] =
       (sample_vault(''a.md'' \<mapsto> [(''status'', JString ''draft''), (''priority'', JString ''high'')]), 1)
   \<and> map_of (fst (addProperties_loop
         [\<lparr>def_key = ''status'', def_value = JString ''final'', def_type = Text\<rparr>,
          \<lparr>def_key = ''priority'', def_value = JString ''high'', def_type = Text\<rparr>]
         ([(''status'', JString ''draft'')], 0))) ''status'' = Some (JString ''draft'')"
  using addProperties_untouched [of "[(''status'', JString ''draft'')]" "''status''" "JString ''draft''"
      "[\<lparr>def_key = ''status'', def_value = JString ''final'', def_type = Text\<rparr>,
        \<lparr>def_key = ''priority'', def_value = JString ''high'', def_type = Text\<rparr>]"
      "\<lparr>def_key = ''status'', def_value = JString ''final'', def_type = Text\<rparr>"
      sample_vault a_md]
  by (simp add: sample_vault_def a_md_def hasKey_def hasOwn_def objectPrototypeKeys_def
        setProp_def)

section \<open>Renaming a key to itself\<close>

text \<open>
  C10. \<^verbatim>\<open>renamePropertyKey\<close> with the old and the new key equal, on a block that
  has the key, deletes the key with its value and returns \<^verbatim>\<open>true\<close>: the
  function has no guard. Its callers never pass equal keys: the rename form
  filters them out, and the edit form renames only when the keys differ.
\<close>

theorem renamePropertyKey_self:
  "map_of fm k = Some v \<longrightarrow>
     renamePropertyKey_callback k k fm = (AList.delete k fm, True)
     \<and> map_of (AList.delete k fm) = (map_of fm)(k := None)
     \<and> \<not> hasOwn k (AList.delete k fm)
     \<and> (vault (path file) = Some fm \<longrightarrow>
          renamePropertyKey vault file k k = (vault(path file \<mapsto> AList.delete k fm), True))
     \<and> (\<forall>r \<in> set (enabledRenames propertyRenames). rename_originalKey r \<noteq> rename_newKey r)
     \<and> (keyRenamed edit \<longrightarrow> edit_originalKey edit \<noteq> edit_newKey edit)"
  by (auto simp: renamePropertyKey_callback_def renamePropertyKey_def processFrontMatter_def
        hasKey_own getProp_own setProp_own delete_update_same delete_conv' hasOwn_map_of
        enabledRenames_def keyRenamed_def)

theorem renamePropertyKey_self_witness:
  "map_of [(''status'', JString ''draft'')] ''status'' = Some (JString ''draft'')
   \<and> sample_vault (path a_md) = Some [(''status'', JString ''draft'')]
   \<and> renamePropertyKey sample_vault a_md ''status'' ''status'' = (sample_vault(''a.md'' \<mapsto> []), True)
   \<and> enabledRenames
         [\<lparr>rename_originalKey = ''status'', rename_newKey = ''state'', rename_enabled = True\<rparr>,
          \<lparr>rename_originalKey = ''priority'', rename_newKey = ''priority'', rename_enabled = True\<rparr>]
       = [\<lparr>rename_originalKey = ''status'', rename_newKey = ''state'', rename_enabled = True\<rparr>]
   \<and> keyRenamed \<lparr>edit_originalKey = ''status'', edit_newKey = ''state'', edit_enabled = True,
         edit_updateValue = False, edit_type = Text, edit_value = JString ''draft'',
         edit_originalValue = JString ''draft''\<rparr>"
  using renamePropertyKey_self [of "[(''status'', JString ''draft'')]" "''status''" "JString ''draft''"
      sample_vault a_md
      "[\<lparr>rename_originalKey = ''status'', rename_newKey = ''state'', rename_enabled = True\<rparr>,
        \<lparr>rename_originalKey = ''priority'', rename_newKey = ''priority'', rename_enabled = True\<rparr>]"
      "\<lparr>edit_originalKey = ''status'', edit_newKey = ''state'', edit_enabled = True,
         edit_updateValue = False, edit_type = Text, edit_value = JString ''draft'',
         edit_originalValue = JString ''draft''\<rparr>"]
  by (simp add: sample_vault_def a_md_def enabledRenames_def keyRenamed_def)

section \<open>Folder traversal\<close>

lemma concat_map_cong:
  "(\<And>x. x \<in> set xs \<Longrightarrow> f x = g x) \<Longrightarrow> concat (map f xs) = concat (map g xs)"
  by (induction xs) auto

lemma getFiles_no_descent:
  "\<not> (includeSubfolders \<and> (depthLevel = -1 \<or> currentDepth < depthLevel))
     \<Longrightarrow> getFilesFromFolder folder includeSubfolders depthLevel currentDepth
           = directMarkdownFiles folder"
  by (cases folder)
     (auto simp: directMarkdownFiles_def intro!: concat_map_cong split: TAbstractFile.splits)

lemma getFiles_unlimited:
  "getFilesFromFolder folder True (-1) currentDepth
     = filter (\<lambda>f. extension f = ''md'') (subtreeFiles folder)"
proof (induction folder True "-1 :: int" currentDepth rule: getFilesFromFolder.induct)
  case (1 p cs currentDepth)
  have "concat (map (\<lambda>child. case child of
            AFile f \<Rightarrow> if extension f = ''md'' then [f] else []
          | AFolder d \<Rightarrow> getFilesFromFolder d True (-1) (currentDepth + 1)) cs)
      = concat (map (\<lambda>child. filter (\<lambda>f. extension f = ''md'')
            (case child of AFile f \<Rightarrow> [f] | AFolder d \<Rightarrow> subtreeFiles d)) cs)"
    by (rule concat_map_cong) (auto simp: 1 split: TAbstractFile.splits)
  then show ?case
    by (simp add: filter_concat comp_def)
qed

lemma getFiles_within:
  "includeSubfolders \<Longrightarrow> 0 \<le> currentDepth \<Longrightarrow> currentDepth \<le> depthLevel
     \<Longrightarrow> getFilesFromFolder folder includeSubfolders depthLevel currentDepth
           = filesWithin (nat (depthLevel - currentDepth)) folder"
proof (induction folder includeSubfolders depthLevel currentDepth rule: getFilesFromFolder.induct)
  case (1 p cs includeSubfolders depthLevel currentDepth)
  show ?case
  proof (cases "currentDepth < depthLevel")
    case True
    then obtain m where m: "nat (depthLevel - currentDepth) = Suc m"
      "nat (depthLevel - (currentDepth + 1)) = m"
      by (cases "nat (depthLevel - currentDepth)") auto
    have sub: "getFilesFromFolder d includeSubfolders depthLevel (currentDepth + 1) = filesWithin m d"
      if "AFolder d \<in> set cs" for d
      using "1.IH" [OF that refl] True "1.prems" m by simp
    have "concat (map (\<lambda>child. case child of
            AFile f \<Rightarrow> if extension f = ''md'' then [f] else []
          | AFolder d \<Rightarrow> getFilesFromFolder d includeSubfolders depthLevel (currentDepth + 1)) cs)
      = concat (map (\<lambda>child. case child of
            AFile f \<Rightarrow> if extension f = ''md'' then [f] else []
          | AFolder d \<Rightarrow> filesWithin m d) cs)"
      by (rule concat_map_cong) (auto simp: sub split: TAbstractFile.splits)
    with True m "1.prems" show ?thesis by simp
  next
    case False
    with "1.prems" have "depthLevel - currentDepth = 0" "depthLevel \<noteq> -1" by auto
    with False show ?thesis by simp
  qed
qed

text \<open>
  C8. With subfolders included, depth 0 returns the Markdown children of the
  folder and nothing below; depth \<open>-1\<close> returns the Markdown files of the
  whole subtree, each once for each place it has in the tree (so without
  repetition when the files of the tree are distinct); a depth \<open>N \<ge> 0\<close> returns
  the Markdown files at most \<open>N\<close> folders below the start. With subfolders
  excluded nothing below the folder is returned, whatever the depth.
\<close>

theorem getFilesFromFolder_depth:
  "getFilesFromFolder folder True 0 0 = directMarkdownFiles folder
   \<and> getFilesFromFolder folder True (-1) 0
       = filter (\<lambda>f. extension f = ''md'') (subtreeFiles folder)
   \<and> (distinct (subtreeFiles folder) \<longrightarrow>
        distinct (getFilesFromFolder folder True (-1) 0)
        \<and> set (getFilesFromFolder folder True (-1) 0)
            = {f \<in> set (subtreeFiles folder). extension f = ''md''})
   \<and> (0 \<le> N \<longrightarrow> getFilesFromFolder folder True N 0 = filesWithin (nat N) folder)
   \<and> getFilesFromFolder folder False depthLevel 0 = directMarkdownFiles folder"
  using getFiles_within [of True 0 N folder]
  by (simp add: getFiles_no_descent getFiles_unlimited)

theorem getFilesFromFolder_depth_witness:
  "distinct (subtreeFiles sample_sorted_folder)
   \<and> (0::int) \<le> 1
   \<and> getFilesFromFolder sample_sorted_folder True 1 0
       = [TFile ''notes/a.md'' ''md'', TFile ''notes/sub/b.md'' ''md'']
   \<and> filesWithin (nat 1) sample_sorted_folder
       = [TFile ''notes/a.md'' ''md'', TFile ''notes/sub/b.md'' ''md'']
   \<and> getFilesFromFolder sample_sorted_folder True (-1) 0
       = [TFile ''notes/a.md'' ''md'', TFile ''notes/sub/b.md'' ''md'',
          TFile ''notes/sub/deep/c.md'' ''md'']
   \<and> getFilesFromFolder sample_sorted_folder True 0 0 = [TFile ''notes/a.md'' ''md'']
   \<and> getFilesFromFolder sample_sorted_folder False 5 0 = [TFile ''notes/a.md'' ''md'']"
  using getFilesFromFolder_depth [of sample_sorted_folder 1 5]
  by (simp add: sample_sorted_folder_def directMarkdownFiles_def)

lemma files_part:
  "concat (map (case_TAbstractFile a b) (filter isFileChild cs))
     = concat (map (case_TAbstractFile a (\<lambda>d. [])) cs)"
  by (induction cs) (auto split: TAbstractFile.splits)

lemma folders_part:
  "concat (map (case_TAbstractFile a b) (filter (\<lambda>child. \<not> isFileChild child) cs))
     = concat (map (case_TAbstractFile (\<lambda>f. []) b) cs)"
  by (induction cs) (auto split: TAbstractFile.splits)

lemma files_then_folders:
  assumes "cs = filter isFileChild cs @ filter (\<lambda>child. \<not> isFileChild child) cs"
  shows "concat (map (case_TAbstractFile a b) cs)
     = concat (map (case_TAbstractFile a (\<lambda>d. [])) cs)
       @ concat (map (case_TAbstractFile (\<lambda>f. []) b) cs)"
proof -
  have "concat (map (case_TAbstractFile a b) cs)
      = concat (map (case_TAbstractFile a b)
          (filter isFileChild cs @ filter (\<lambda>child. \<not> isFileChild child) cs))"
    using assms by simp
  also have "\<dots> = concat (map (case_TAbstractFile a b) (filter isFileChild cs))
      @ concat (map (case_TAbstractFile a b) (filter (\<lambda>child. \<not> isFileChild child) cs))"
    by simp
  finally show ?thesis
    by (simp only: files_part folders_part)
qed

lemma getFiles_directFilesFirst:
  "filesBeforeFolders folder
     \<Longrightarrow> getFilesFromFolder folder includeSubfolders depthLevel currentDepth
           = directFilesFirst folder includeSubfolders depthLevel currentDepth"
proof (induction folder includeSubfolders depthLevel currentDepth rule: getFilesFromFolder.induct)
  case (1 p cs includeSubfolders depthLevel currentDepth)
  let ?descend = "includeSubfolders \<and> (depthLevel = -1 \<or> currentDepth < depthLevel)"
  from "1.prems" have split: "cs = filter isFileChild cs @ filter (\<lambda>child. \<not> isFileChild child) cs"
    and sub: "\<And>d. AFolder d \<in> set cs \<Longrightarrow> filesBeforeFolders d"
    by (auto simp: list_all_iff split: TAbstractFile.splits)
  have sub_eq: "concat (map (case_TAbstractFile (\<lambda>f. [])
          (\<lambda>d. if ?descend
                then getFilesFromFolder d includeSubfolders depthLevel (currentDepth + 1) else [])) cs)
      = concat (map (case_TAbstractFile (\<lambda>f. [])
          (\<lambda>d. if ?descend
                then directFilesFirst d includeSubfolders depthLevel (currentDepth + 1) else [])) cs)"
  proof (rule concat_map_cong)
    fix child assume child: "child \<in> set cs"
    show "(case child of AFile f \<Rightarrow> []
            | AFolder d \<Rightarrow> if ?descend
                then getFilesFromFolder d includeSubfolders depthLevel (currentDepth + 1) else [])
        = (case child of AFile f \<Rightarrow> []
            | AFolder d \<Rightarrow> if ?descend
                then directFilesFirst d includeSubfolders depthLevel (currentDepth + 1) else [])"
    proof (cases child)
      case (AFile f)
      then show ?thesis by simp
    next
      case (AFolder d)
      with child "1.IH" [of child d] sub [of d] show ?thesis by auto
    qed
  qed
  have "getFilesFromFolder (TFolder p cs) includeSubfolders depthLevel currentDepth
      = concat (map (case_TAbstractFile (\<lambda>f. if extension f = ''md'' then [f] else [])
          (\<lambda>d. if ?descend
                then getFilesFromFolder d includeSubfolders depthLevel (currentDepth + 1) else [])) cs)"
    by simp
  also have "\<dots> = concat (map (case_TAbstractFile
            (\<lambda>f. if extension f = ''md'' then [f] else []) (\<lambda>d. [])) cs)
      @ concat (map (case_TAbstractFile (\<lambda>f. [])
          (\<lambda>d. if ?descend
                then getFilesFromFolder d includeSubfolders depthLevel (currentDepth + 1) else [])) cs)"
    by (rule files_then_folders [OF split])
  also have "\<dots> = directFilesFirst (TFolder p cs) includeSubfolders depthLevel currentDepth"
    by (simp only: sub_eq directFilesFirst.simps)
  finally show ?case .
qed

text \<open>
  C9, as stated, fails: in \<open>sample_folder\<close> the subfolder comes before the
  folder's own file, and the file of the subfolder is emitted first.
\<close>

theorem direct_files_first_counterexample:
  "getFilesFromFolder sample_folder True (-1) 0
     = [TFile ''notes/sub/b.md'' ''md'', TFile ''notes/a.md'' ''md'']
   \<and> directMarkdownFiles sample_folder = [TFile ''notes/a.md'' ''md'']
   \<and> directFilesFirst sample_folder True (-1) 0
     = [TFile ''notes/a.md'' ''md'', TFile ''notes/sub/b.md'' ''md'']"
  by (simp add: sample_folder_def directMarkdownFiles_def)

text \<open>
  C9, amended. The traversal follows the order of the children, depth first: the
  result for a list of children is the concatenation of the results of its
  parts, a Markdown child gives itself, and a subfolder that is descended into
  gives its own traversal at its place among the children. Direct files come
  first where every folder lists its files before its subfolders.
\<close>

theorem getFilesFromFolder_child_order:
  "getFilesFromFolder (TFolder p (xs @ ys)) includeSubfolders depthLevel currentDepth
     = getFilesFromFolder (TFolder p xs) includeSubfolders depthLevel currentDepth
       @ getFilesFromFolder (TFolder p ys) includeSubfolders depthLevel currentDepth
   \<and> getFilesFromFolder (TFolder p [AFile f]) includeSubfolders depthLevel currentDepth
       = (if extension f = ''md'' then [f] else [])
   \<and> getFilesFromFolder (TFolder p [AFolder sub]) includeSubfolders depthLevel currentDepth
       = (if includeSubfolders \<and> (depthLevel = -1 \<or> currentDepth < depthLevel)
          then getFilesFromFolder sub includeSubfolders depthLevel (currentDepth + 1) else [])
   \<and> (filesBeforeFolders folder \<longrightarrow>
        getFilesFromFolder folder includeSubfolders depthLevel currentDepth
          = directFilesFirst folder includeSubfolders depthLevel currentDepth)"
  by (simp add: getFiles_directFilesFirst)

theorem getFilesFromFolder_child_order_witness:
  "filesBeforeFolders sample_sorted_folder
   \<and> getFilesFromFolder sample_sorted_folder True (-1) 0
       = [TFile ''notes/a.md'' ''md'', TFile ''notes/sub/b.md'' ''md'',
          TFile ''notes/sub/deep/c.md'' ''md'']
   \<and> directFilesFirst sample_sorted_folder True (-1) 0
       = [TFile ''notes/a.md'' ''md'', TFile ''notes/sub/b.md'' ''md'',
          TFile ''notes/sub/deep/c.md'' ''md'']"
  using getFilesFromFolder_child_order [of "''notes''" "[]" "[]" True "-1" 0 "TFile ''notes/a.md'' ''md''"
      "TFolder ''notes/sub'' []" sample_sorted_folder]
  by (simp add: sample_sorted_folder_def)

section \<open>An edit that renames and updates\<close>

lemma renamePropertyKey_Some:
  "vault (path doc) = Some fm \<Longrightarrow>
     renamePropertyKey vault doc oldKey newKey =
       (vault(path doc \<mapsto> fst (renamePropertyKey_callback oldKey newKey fm)),
        snd (renamePropertyKey_callback oldKey newKey fm))"
  by (simp add: renamePropertyKey_def processFrontMatter_def split: prod.splits)

lemma updatePropertyValue_Some:
  "vault (path doc) = Some fm \<Longrightarrow>
     updatePropertyValue vault doc key val addIfMissing =
       (vault(path doc \<mapsto> fst (updatePropertyValue_callback key val addIfMissing fm)),
        snd (updatePropertyValue_callback key val addIfMissing fm))"
  by (simp add: updatePropertyValue_def processFrontMatter_def split: prod.splits)

lemma editOne_sequence:
  assumes "keyRenamed edit" "edit_updateValue edit"
  shows "editOne addTo doc edit st = renameThenUpdate addTo doc edit st"
proof -
  obtain vault r u a where st: "st = (vault, r, u, a)"
    by (cases st)
  show ?thesis
    unfolding st using assms
    by (auto simp: renameThenUpdate_def targetKey_def split: prod.splits)
qed

lemma editFiles_position:
  "editFiles addTo (before @ edit # after) (earlier @ doc # later) st =
     editFiles addTo (before @ edit # after) later
       (fold (editOne addTo doc) after
          (editOne addTo doc edit
             (fold (editOne addTo doc) before
                (editFiles addTo (before @ edit # after) earlier st))))"
  by (simp add: editFiles_def)

lemma edit_handleSubmit_runs:
  assumes "filter edit_enabled propertyEdits = before @ edit # after" "edit_updateValue edit"
  shows "fst (edit_handleSubmit propertyEdits addTo files vault)
     = fst (editFiles addTo (before @ edit # after) files (vault, 0, 0, 0))"
proof -
  have "hasValidEdit (before @ edit # after)"
    using assms(2) by (simp add: hasValidEdit_def list_ex_iff)
  with assms(1) show ?thesis
    by (simp add: edit_handleSubmit_def Let_def split: prod.splits)
qed

text \<open>
  After the rename and the update the block does not own the original key, and
  for keys that are not inherited names the new key holds the edit's value
  whenever there was something to rename or to update.
\<close>

lemma renameThenUpdate_block:
  assumes kr: "keyRenamed edit" and fm: "vault (path doc) = Some fm"
  shows "case renameThenUpdate addTo doc edit (vault, totalRenamed, totalUpdated, totalAdded) of
           (vault', totalRenamed', totalUpdated', totalAdded') \<Rightarrow>
             (\<exists>fm'. vault' (path doc) = Some fm'
                \<and> map_of fm' (edit_originalKey edit) = None
                \<and> (edit_originalKey edit \<notin> set objectPrototypeKeys
                     \<and> edit_newKey edit \<notin> set objectPrototypeKeys \<longrightarrow>
                    (if map_of fm (edit_originalKey edit) \<noteq> None
                     then map_of fm' = ((map_of fm)(edit_originalKey edit := None))
                                         (edit_newKey edit \<mapsto> edit_value edit)
                          \<and> totalRenamed' = totalRenamed + 1
                          \<and> totalUpdated' = totalUpdated + 1
                          \<and> totalAdded' = totalAdded
                     else totalRenamed' = totalRenamed
                          \<and> (if map_of fm (edit_newKey edit) \<noteq> None \<or> addTo
                              then map_of fm' = (map_of fm)(edit_newKey edit \<mapsto> edit_value edit)
                              else fm' = fm))))"
proof -
  let ?old = "edit_originalKey edit" and ?new = "edit_newKey edit" and ?val = "edit_value edit"
  from kr have ne: "?old \<noteq> ?new"
    by (simp add: keyRenamed_def)
  obtain fm1 renamed where cb: "renamePropertyKey_callback ?old ?new fm = (fm1, renamed)"
    by (cases "renamePropertyKey_callback ?old ?new fm")
  obtain fm2 result where ub: "updatePropertyValue_callback ?new ?val addTo fm1 = (fm2, result)"
    by (cases "updatePropertyValue_callback ?new ?val addTo fm1")
  have run: "renameThenUpdate addTo doc edit (vault, totalRenamed, totalUpdated, totalAdded) =
      (vault(path doc \<mapsto> fm2),
       if renamed then totalRenamed + 1 else totalRenamed,
       if result = Updated then totalUpdated + 1 else totalUpdated,
       if result = Added then totalAdded + 1 else totalAdded)"
    using fm cb ub
    by (simp add: renameThenUpdate_def renamePropertyKey_Some updatePropertyValue_Some)
  have gone1: "map_of fm1 ?old = None"
    using cb by (auto simp: renamePropertyKey_callback_def hasKey_def hasOwn_map_of delete_conv'
        split: if_splits)
  have gone: "map_of fm2 ?old = None"
    using ub gone1 ne
    by (auto simp: updatePropertyValue_callback_def map_of_setProp_other split: if_splits)
  have ordinary: "if map_of fm ?old \<noteq> None
      then map_of fm2 = ((map_of fm)(?old := None))(?new \<mapsto> ?val)
           \<and> renamed \<and> result = Updated
      else \<not> renamed
           \<and> (if map_of fm ?new \<noteq> None \<or> addTo
               then map_of fm2 = (map_of fm)(?new \<mapsto> ?val) \<and> result \<noteq> NoChange
               else fm2 = fm \<and> result = NoChange)"
    if o: "?old \<notin> set objectPrototypeKeys" and n: "?new \<notin> set objectPrototypeKeys"
  proof (cases "map_of fm ?old")
    case None
    with cb o have "fm1 = fm" "\<not> renamed"
      by (auto simp: renamePropertyKey_callback_def hasKey_ordinary)
    with ub n None show ?thesis
      by (auto simp: updatePropertyValue_callback_ordinary update_conv' split: if_splits)
  next
    case (Some v0)
    with cb n have fm1: "fm1 = AList.delete ?old (AList.update ?new v0 fm)" and r: renamed
      by (auto simp: renamePropertyKey_callback_def hasKey_own getProp_own setProp_ordinary
          dest: ordinary_not_proto)
    have "map_of fm1 ?new \<noteq> None"
      using ne by (simp add: fm1 delete_conv' update_conv')
    with ub n have "fm2 = AList.update ?new ?val fm1" "result = Updated"
      by (auto simp: updatePropertyValue_callback_ordinary)
    moreover have "map_of (AList.update ?new ?val fm1) = ((map_of fm)(?old := None))(?new \<mapsto> ?val)"
      using ne by (auto simp: fm1 update_conv' delete_conv' fun_eq_iff)
    ultimately show ?thesis
      using Some r by simp
  qed
  show ?thesis
    unfolding run using gone ordinary by (auto split: if_splits)
qed

text \<open>
  C4. In the form, for every file and every enabled edit that renames the key
  and updates the value, the step taken at that file and that edit is the
  rename followed by the update of the new key: the form runs the two loops,
  the loops reach the step after the earlier files and the edits before it, and
  the step renames first. After the step the block does not own the original
  key; for ordinary keys the new key holds the edit's value (one rename and one
  update counted) when the block had the original key, and otherwise nothing is
  renamed and the update goes to the new key.
\<close>

theorem edit_rename_before_update:
  "keyRenamed edit \<and> edit_updateValue edit
     \<and> filter edit_enabled propertyEdits = before @ edit # after
     \<and> files = earlier @ doc # later \<longrightarrow>
     targetKey edit = edit_newKey edit
     \<and> fst (edit_handleSubmit propertyEdits addTo files vault)
         = fst (editFiles addTo (before @ edit # after) (earlier @ doc # later) (vault, 0, 0, 0))
     \<and> editFiles addTo (before @ edit # after) (earlier @ doc # later) st =
         editFiles addTo (before @ edit # after) later
           (fold (editOne addTo doc) after
              (renameThenUpdate addTo doc edit
                 (fold (editOne addTo doc) before
                    (editFiles addTo (before @ edit # after) earlier st))))
     \<and> editOne addTo doc edit st = renameThenUpdate addTo doc edit st
     \<and> renameThenUpdate addTo doc edit (vault, totalRenamed, totalUpdated, totalAdded) =
         (case renamePropertyKey vault doc (edit_originalKey edit) (edit_newKey edit) of
            (vault1, renamed) \<Rightarrow>
              (case updatePropertyValue vault1 doc (edit_newKey edit) (edit_value edit) addTo of
                 (vault2, result) \<Rightarrow>
                   (vault2,
                    if renamed then totalRenamed + 1 else totalRenamed,
                    if result = Updated then totalUpdated + 1 else totalUpdated,
                    if result = Added then totalAdded + 1 else totalAdded)))
     \<and> (vault (path doc) = Some fm \<longrightarrow>
          (case editOne addTo doc edit (vault, totalRenamed, totalUpdated, totalAdded) of
             (vault', totalRenamed', totalUpdated', totalAdded') \<Rightarrow>
               (\<exists>fm'. vault' (path doc) = Some fm'
                  \<and> map_of fm' (edit_originalKey edit) = None
                  \<and> (edit_originalKey edit \<notin> set objectPrototypeKeys
                       \<and> edit_newKey edit \<notin> set objectPrototypeKeys \<longrightarrow>
                      (if map_of fm (edit_originalKey edit) \<noteq> None
                       then map_of fm' = ((map_of fm)(edit_originalKey edit := None))
                                           (edit_newKey edit \<mapsto> edit_value edit)
                            \<and> totalRenamed' = totalRenamed + 1
                            \<and> totalUpdated' = totalUpdated + 1
                            \<and> totalAdded' = totalAdded
                       else totalRenamed' = totalRenamed
                            \<and> (if map_of fm (edit_newKey edit) \<noteq> None \<or> addTo
                                then map_of fm' = (map_of fm)(edit_newKey edit \<mapsto> edit_value edit)
                                else fm' = fm))))))"
  (is "?both \<longrightarrow> ?target \<and> ?form \<and> ?loops \<and> ?step \<and> ?order \<and> (?block \<longrightarrow> ?outcome)")
proof (intro impI conjI)
  assume ?both
  then show ?target by (simp add: targetKey_def)
next
  assume ?both
  then have "fst (edit_handleSubmit propertyEdits addTo files vault)
      = fst (editFiles addTo (before @ edit # after) files (vault, 0, 0, 0))"
    by (intro edit_handleSubmit_runs) simp_all
  with \<open>?both\<close> show ?form by simp
next
  assume ?both
  then have "editOne addTo doc edit s = renameThenUpdate addTo doc edit s" for s
    by (intro editOne_sequence) simp_all
  then show ?loops
    by (simp add: editFiles_position)
next
  assume ?both
  then show ?step
    by (intro editOne_sequence) simp_all
next
  show ?order
    by (simp add: renameThenUpdate_def)
next
  assume both: ?both and fm: ?block
  then have step: "editOne addTo doc edit (vault, totalRenamed, totalUpdated, totalAdded)
      = renameThenUpdate addTo doc edit (vault, totalRenamed, totalUpdated, totalAdded)"
    by (intro editOne_sequence) simp_all
  from both have kr: "keyRenamed edit" by simp
  show ?outcome
    unfolding step
    by (rule renameThenUpdate_block [where vault = vault and doc = doc and fm = fm, OF kr fm])
qed

theorem edit_rename_before_update_witness:
  "keyRenamed sample_edit \<and> edit_updateValue sample_edit
   \<and> filter edit_enabled [sample_edit] = [] @ sample_edit # []
   \<and> [a_md, b_md] = [] @ a_md # [b_md]
   \<and> sample_vault (path a_md) = Some [(''status'', JString ''draft'')]
   \<and> edit_originalKey sample_edit \<notin> set objectPrototypeKeys
   \<and> edit_newKey sample_edit \<notin> set objectPrototypeKeys
   \<and> fst (edit_handleSubmit [sample_edit] False [a_md, b_md] sample_vault) ''a.md''
       = Some [(''state'', JString ''final'')]
   \<and> fst (edit_handleSubmit [sample_edit] False [a_md, b_md] sample_vault) ''b.md'' = Some []
   \<and> snd (edit_handleSubmit [sample_edit] False [a_md, b_md] sample_vault)
       = ''Properties: renamed 1, updated 1''
   \<and> (case editOne False a_md sample_edit (sample_vault, 0, 0, 0) of
         (vault', totalRenamed, totalUpdated, totalAdded) \<Rightarrow>
           vault' ''a.md'' = Some [(''state'', JString ''final'')]
           \<and> totalRenamed = 1 \<and> totalUpdated = 1 \<and> totalAdded = 0)"
proof -
  have hyp: "keyRenamed sample_edit \<and> edit_updateValue sample_edit
      \<and> filter edit_enabled [sample_edit] = [] @ sample_edit # []
      \<and> [a_md, b_md] = [] @ a_md # [b_md]"
    by (simp add: sample_edit_def keyRenamed_def)
  have block: "sample_vault (path a_md) = Some [(''status'', JString ''draft'')]"
    by (simp add: sample_vault_def a_md_def)
  have ordinary: "edit_originalKey sample_edit \<notin> set objectPrototypeKeys
      \<and> edit_newKey sample_edit \<notin> set objectPrototypeKeys"
    by (simp add: sample_edit_def objectPrototypeKeys_def)
  have step: "editOne False a_md sample_edit (sample_vault, 0, 0, 0) =
      (sample_vault(''a.md'' \<mapsto> [(''state'', JString ''final'')]), 1, 1, 0)"
    by (simp add: sample_edit_def keyRenamed_def targetKey_def sample_vault_def a_md_def
        renamePropertyKey_def updatePropertyValue_def processFrontMatter_def
        renamePropertyKey_callback_def updatePropertyValue_callback_def block_defs)
  have step_b: "editOne False b_md sample_edit
        (sample_vault(''a.md'' \<mapsto> [(''state'', JString ''final'')]), 1, 1, 0) =
      (sample_vault(''a.md'' \<mapsto> [(''state'', JString ''final'')]), 1, 1, 0)"
    by (simp add: sample_edit_def keyRenamed_def targetKey_def sample_vault_def b_md_def
        renamePropertyKey_def updatePropertyValue_def processFrontMatter_def
        renamePropertyKey_callback_def updatePropertyValue_callback_def block_defs fun_upd_twist)
  have loops: "editFiles False [sample_edit] [a_md, b_md] (sample_vault, 0, 0, 0) =
      (sample_vault(''a.md'' \<mapsto> [(''state'', JString ''final'')]), 1, 1, 0)"
    by (simp only: editFiles_def fold_simps comp_apply id_apply step step_b)
  have enabled: "filter edit_enabled [sample_edit] = [sample_edit]"
    "hasValidEdit [sample_edit]"
    by (simp_all add: sample_edit_def hasValidEdit_def)
  have number: "numberToString (Suc 0) = ''1''"
    by (simp add: numberToString.simps)
  have on: "edit_enabled sample_edit"
    by (simp add: sample_edit_def)
  have form: "edit_handleSubmit [sample_edit] False [a_md, b_md] sample_vault =
      (sample_vault(''a.md'' \<mapsto> [(''state'', JString ''final'')]),
       ''Properties: renamed 1, updated 1'')"
    by (simp add: edit_handleSubmit_def enabled on loops summaryMessage_def part_def number)
  have f1: "fst (edit_handleSubmit [sample_edit] False [a_md, b_md] sample_vault) ''a.md''
      = Some [(''state'', JString ''final'')]"
    unfolding form by simp
  have f2: "fst (edit_handleSubmit [sample_edit] False [a_md, b_md] sample_vault) ''b.md'' = Some []"
    unfolding form by (simp add: sample_vault_def)
  have f3: "snd (edit_handleSubmit [sample_edit] False [a_md, b_md] sample_vault)
      = ''Properties: renamed 1, updated 1''"
    unfolding form by simp
  have f4: "case editOne False a_md sample_edit (sample_vault, 0, 0, 0) of
         (vault', totalRenamed, totalUpdated, totalAdded) \<Rightarrow>
           vault' ''a.md'' = Some [(''state'', JString ''final'')]
           \<and> totalRenamed = 1 \<and> totalUpdated = 1 \<and> totalAdded = 0"
    unfolding step by simp
  from edit_rename_before_update [of sample_edit "[sample_edit]" "[]" "[]" "[a_md, b_md]" "[]"
      a_md "[b_md]" False sample_vault "(sample_vault, 0, 0, 0)" 0 0 0
      "[(''status'', JString ''draft'')]"] hyp
  have "editOne False a_md sample_edit (sample_vault, 0, 0, 0)
      = renameThenUpdate False a_md sample_edit (sample_vault, 0, 0, 0)"
    by blast
  with hyp block ordinary f1 f2 f3 f4 show ?thesis
    by blast
qed

section \<open>The summary notice\<close>

lemma parts_filter:
  "concat (map (\<lambda>(label, n). part label n) counters)
     = map (\<lambda>(label, n). label @ '' '' @ numberToString n) (filter (\<lambda>(label, n). n > 0) counters)"
  by (induction counters) (auto simp: part_def)

lemma filter_empty_zero:
  "filter (\<lambda>(label, n). n > 0) counters = [] \<longleftrightarrow> list_all (\<lambda>(label, n :: nat). n = 0) counters"
  by (induction counters) auto

lemma summaryMessage_counters:
  "summaryMessage (concat (map (\<lambda>(label, n). part label n) counters)) = counterSummary counters"
  by (simp add: parts_filter summaryMessage_def counterSummary_def filter_empty_zero)

lemma counterSummary_nonempty: "counterSummary counters \<noteq> []"
  by (simp add: counterSummary_def)

lemma counterSummary_no_changes:
  "counterSummary counters = ''No changes made'' \<longleftrightarrow> list_all (\<lambda>(label, n). n = 0) counters"
  by (simp add: counterSummary_def)

lemma summary2: "summaryMessage (part l1 n1 @ part l2 n2) = counterSummary [(l1, n1), (l2, n2)]"
  using summaryMessage_counters [of "[(l1, n1), (l2, n2)]"] by simp

lemma summary3:
  "summaryMessage (part l1 n1 @ part l2 n2 @ part l3 n3) = counterSummary [(l1, n1), (l2, n2), (l3, n3)]"
  using summaryMessage_counters [of "[(l1, n1), (l2, n2), (l3, n3)]"] by simp

text \<open>
  C5, as stated, fails for the add and the remove form: when no document
  changes, the notice still reads "Added 1 property(ies) to 0 file(s)", with
  the zero counter in it.
\<close>

theorem zero_counter_counterexample:
  "snd (add_handleSubmit [\<lparr>def_key = ''status'', def_value = JString ''final'', def_type = Text\<rparr>]
          [a_md] sample_vault)
     = ''Added 1 property(ies) to 0 file(s)''
   \<and> snd (add_handleSubmit [\<lparr>def_key = ''status'', def_value = JString ''final'', def_type = Text\<rparr>]
          [a_md] sample_vault)
     \<noteq> ''No changes made''
   \<and> snd (remove_handleSubmit [''priority''] [a_md] sample_vault)
     = ''Removed 1 property(ies) from 0 file(s)''"
  by (simp add: add_handleSubmit_def addPropertiesToFile_def processFrontMatter_def block_defs
        remove_handleSubmit_def removePropertiesFromFile_def
        sample_vault_def a_md_def numberToString.simps)

text \<open>
  C5, amended. After a run of the rename form, of the form that edits values,
  or of the combined edit form, the notice is made of the non-zero counters
  only, and it is "No changes made" exactly when every counter is zero. After
  a run of the add or the remove form the notice is a fixed sentence with the
  number of properties and the number of documents changed, also when that
  number is zero. No notice is the empty string.
\<close>

theorem summary_of_counters:
  \<open>snd (rename_handleSubmit propertyRenames addTo files vault) =
     (if enabledRenames propertyRenames = []
      then ''Please select at least one property and change its name''
      else case renameFiles addTo (enabledRenames propertyRenames) files (vault, 0, 0) of
             (vault', totalRenamed, totalAdded) \<Rightarrow>
               counterSummary [(''renamed'', totalRenamed), (''added'', totalAdded)])
   \<and> snd (editValues_handleSubmit valueEdits addTo files vault) =
     (if filter vedit_enabled valueEdits = []
      then ''Please select at least one property to update''
      else case editValuesFiles addTo (filter vedit_enabled valueEdits) files (vault, 0, 0) of
             (vault', totalUpdated, totalAdded) \<Rightarrow>
               counterSummary [(''updated'', totalUpdated), (''added'', totalAdded)])
   \<and> snd (edit_handleSubmit propertyEdits addTo files vault) =
     (if filter edit_enabled propertyEdits = []
      then ''Please enable at least one property to edit''
      else if \<not> hasValidEdit (filter edit_enabled propertyEdits)
      then ''Please rename a property or enable "Update" to change values''
      else case editFiles addTo (filter edit_enabled propertyEdits) files (vault, 0, 0, 0) of
             (vault', totalRenamed, totalUpdated, totalAdded) \<Rightarrow>
               counterSummary [(''renamed'', totalRenamed), (''updated'', totalUpdated),
                               (''added'', totalAdded)])
   \<and> snd (add_handleSubmit propertiesToAdd files vault) =
     (if filter (\<lambda>p. length (def_key p) > 0) propertiesToAdd = []
      then ''Please add at least one property with a key''
      else ''Added '' @ numberToString (length (filter (\<lambda>p. length (def_key p) > 0) propertiesToAdd))
           @ '' property(ies) to ''
           @ numberToString (snd (addFiles (filter (\<lambda>p. length (def_key p) > 0) propertiesToAdd)
                                     files (vault, 0)))
           @ '' file(s)'')
   \<and> snd (remove_handleSubmit selectedKeys files vault) =
     (if selectedKeys = [] then ''Please select at least one property to remove''
      else ''Removed '' @ numberToString (length selectedKeys) @ '' property(ies) from ''
           @ numberToString (snd (removeFiles selectedKeys files (vault, 0))) @ '' file(s)'')
   \<and> counterSummary counters \<noteq> []
   \<and> (counterSummary counters = ''No changes made'') = list_all (\<lambda>(label, n). n = 0) counters
   \<and> counterSummary counters =
       (if list_all (\<lambda>(label, n). n = 0) counters then ''No changes made''
        else ''Properties: '' @ join '', ''
               (map (\<lambda>(label, n). label @ '' '' @ numberToString n)
                  (filter (\<lambda>(label, n). n > 0) counters)))
   \<and> snd (rename_handleSubmit propertyRenames addTo files vault) \<noteq> []
   \<and> snd (editValues_handleSubmit valueEdits addTo files vault) \<noteq> []
   \<and> snd (edit_handleSubmit propertyEdits addTo files vault) \<noteq> []
   \<and> snd (add_handleSubmit propertiesToAdd files vault) \<noteq> []
   \<and> snd (remove_handleSubmit selectedKeys files vault) \<noteq> []\<close>
proof -
  have rename: "snd (rename_handleSubmit propertyRenames addTo files vault) =
     (if enabledRenames propertyRenames = []
      then ''Please select at least one property and change its name''
      else case renameFiles addTo (enabledRenames propertyRenames) files (vault, 0, 0) of
             (vault', totalRenamed, totalAdded) \<Rightarrow>
               counterSummary [(''renamed'', totalRenamed), (''added'', totalAdded)])"
    by (simp add: rename_handleSubmit_def summary2 split: prod.splits)
  have editv: "snd (editValues_handleSubmit valueEdits addTo files vault) =
     (if filter vedit_enabled valueEdits = []
      then ''Please select at least one property to update''
      else case editValuesFiles addTo (filter vedit_enabled valueEdits) files (vault, 0, 0) of
             (vault', totalUpdated, totalAdded) \<Rightarrow>
               counterSummary [(''updated'', totalUpdated), (''added'', totalAdded)])"
    by (simp add: editValues_handleSubmit_def summary2 Let_def split: prod.splits)
  have edit: \<open>snd (edit_handleSubmit propertyEdits addTo files vault) =
     (if filter edit_enabled propertyEdits = []
      then ''Please enable at least one property to edit''
      else if \<not> hasValidEdit (filter edit_enabled propertyEdits)
      then ''Please rename a property or enable "Update" to change values''
      else case editFiles addTo (filter edit_enabled propertyEdits) files (vault, 0, 0, 0) of
             (vault', totalRenamed, totalUpdated, totalAdded) \<Rightarrow>
               counterSummary [(''renamed'', totalRenamed), (''updated'', totalUpdated),
                               (''added'', totalAdded)])\<close>
    by (simp add: edit_handleSubmit_def summary3 Let_def split: prod.splits)
  have add: "snd (add_handleSubmit propertiesToAdd files vault) =
     (if filter (\<lambda>p. length (def_key p) > 0) propertiesToAdd = []
      then ''Please add at least one property with a key''
      else ''Added '' @ numberToString (length (filter (\<lambda>p. length (def_key p) > 0) propertiesToAdd))
           @ '' property(ies) to ''
           @ numberToString (snd (addFiles (filter (\<lambda>p. length (def_key p) > 0) propertiesToAdd)
                                     files (vault, 0)))
           @ '' file(s)'')"
    by (simp add: add_handleSubmit_def Let_def split: prod.splits)
  have remove: "snd (remove_handleSubmit selectedKeys files vault) =
     (if selectedKeys = [] then ''Please select at least one property to remove''
      else ''Removed '' @ numberToString (length selectedKeys) @ '' property(ies) from ''
           @ numberToString (snd (removeFiles selectedKeys files (vault, 0))) @ '' file(s)'')"
    by (simp add: remove_handleSubmit_def split: prod.splits)
  have ne1: "snd (rename_handleSubmit propertyRenames addTo files vault) \<noteq> []"
    unfolding rename by (simp add: counterSummary_nonempty split: prod.splits)
  have ne2: "snd (editValues_handleSubmit valueEdits addTo files vault) \<noteq> []"
    unfolding editv by (simp add: counterSummary_nonempty split: prod.splits)
  have ne5: "snd (edit_handleSubmit propertyEdits addTo files vault) \<noteq> []"
    unfolding edit by (simp add: counterSummary_nonempty split: prod.splits)
  have ne3: "snd (add_handleSubmit propertiesToAdd files vault) \<noteq> []"
    unfolding add by simp
  have ne4: "snd (remove_handleSubmit selectedKeys files vault) \<noteq> []"
    unfolding remove by simp
  have cs: "counterSummary counters =
       (if list_all (\<lambda>(label, n). n = 0) counters then ''No changes made''
        else ''Properties: '' @ join '', ''
               (map (\<lambda>(label, n). label @ '' '' @ numberToString n)
                  (filter (\<lambda>(label, n). n > 0) counters)))"
    by (simp add: counterSummary_def)
  show ?thesis
    using rename editv edit add remove ne1 ne2 ne3 ne4 ne5 cs counterSummary_nonempty [of counters]
      counterSummary_no_changes [of counters]
    by blast
qed


section \<open>The reserved key\<close>

subsection \<open>Aggregation never holds the reserved key\<close>

lemma loadEntries_tags:
  "\<not> hasOwn ''tags'' existing \<Longrightarrow> \<not> hasOwn ''tags'' (loadEntries entries existing)"
proof (induction entries arbitrary: existing)
  case Nil
  then show ?case by simp
next
  case (Cons e entries)
  obtain key val where e: "e = (key, val)" by (cases e)
  show ?case
  proof (cases "key = ''tags''")
    case True
    with e Cons show ?thesis by simp
  next
    case False
    then have "\<not> hasOwn ''tags'' (AList.update key v existing)" for v
      using Cons.prems by (auto simp: hasOwn_def dom_update)
    with e False Cons.IH show ?thesis by (simp add: Let_def)
  qed
qed

lemma loadFiles_tags:
  "\<not> hasOwn ''tags'' existing \<Longrightarrow> \<not> hasOwn ''tags'' (loadFiles vault files existing)"
  by (induction files arbitrary: existing) (auto simp: loadEntries_tags)

lemma loadExistingProperties_tags: "\<not> hasOwn ''tags'' (loadExistingProperties vault files)"
proof -
  have "\<not> hasOwn ''tags'' ([] :: existingProperties)"
    by (simp add: hasOwn_def)
  then show ?thesis
    unfolding loadExistingProperties_def by (rule loadFiles_tags)
qed

subsection \<open>A transaction that keeps the reserved key keeps it in the vault\<close>

lemma tagsOf_processFrontMatter:
  assumes "\<And>fm. map_of (fst (fn fm)) ''tags'' = map_of fm ''tags''"
    and "processFrontMatter vault doc fn = Some (vault', r)"
  shows "tagsOf vault' = tagsOf vault"
proof
  fix p
  from assms(2) obtain fm where fm: "vault (path doc) = Some fm"
    and v': "vault' = vault(path doc \<mapsto> fst (fn fm))"
    by (auto simp: processFrontMatter_def split: option.splits prod.splits)
  show "tagsOf vault' p = tagsOf vault p"
    using fm v' assms(1) [of fm] by (simp add: tagsOf_def)
qed

lemma add_loop_tags:
  "''tags'' \<notin> def_key ` set props
     \<Longrightarrow> map_of (fst (addProperties_loop props (fm, n))) ''tags'' = map_of fm ''tags''"
  by (induction props arbitrary: fm n) (auto simp: map_of_setProp_other)

lemma remove_loop_tags:
  "''tags'' \<notin> set keys
     \<Longrightarrow> map_of (fst (removeProperties_loop keys (fm, n))) ''tags'' = map_of fm ''tags''"
  by (induction keys arbitrary: fm n) (auto simp: delete_conv')

lemma rename_callback_tags:
  "oldKey \<noteq> ''tags'' \<Longrightarrow> newKey \<noteq> ''tags''
     \<Longrightarrow> map_of (fst (renamePropertyKey_callback oldKey newKey fm)) ''tags'' = map_of fm ''tags''"
  by (auto simp: renamePropertyKey_callback_def map_of_setProp_other delete_conv')

lemma update_callback_tags:
  "key \<noteq> ''tags''
     \<Longrightarrow> map_of (fst (updatePropertyValue_callback key val addIfMissing fm)) ''tags'' = map_of fm ''tags''"
  by (auto simp: updatePropertyValue_callback_def map_of_setProp_other)

lemma addPropertiesToFile_tags:
  "''tags'' \<notin> def_key ` set props \<Longrightarrow> tagsOf (fst (addPropertiesToFile vault doc props)) = tagsOf vault"
  using tagsOf_processFrontMatter [of "\<lambda>fm. addProperties_loop props (fm, 0)" vault doc]
  by (auto simp: addPropertiesToFile_def add_loop_tags split: option.splits)

lemma removePropertiesFromFile_tags:
  "''tags'' \<notin> set keys \<Longrightarrow> tagsOf (fst (removePropertiesFromFile vault doc keys)) = tagsOf vault"
  using tagsOf_processFrontMatter [of "\<lambda>fm. removeProperties_loop keys (fm, 0)" vault doc]
  by (auto simp: removePropertiesFromFile_def remove_loop_tags split: option.splits)

lemma renamePropertyKey_tags:
  "oldKey \<noteq> ''tags'' \<Longrightarrow> newKey \<noteq> ''tags''
     \<Longrightarrow> tagsOf (fst (renamePropertyKey vault doc oldKey newKey)) = tagsOf vault"
  using tagsOf_processFrontMatter [of "renamePropertyKey_callback oldKey newKey" vault doc]
  by (auto simp: renamePropertyKey_def rename_callback_tags split: option.splits)

lemma updatePropertyValue_tags:
  "key \<noteq> ''tags''
     \<Longrightarrow> tagsOf (fst (updatePropertyValue vault doc key val addIfMissing)) = tagsOf vault"
  using tagsOf_processFrontMatter [of "updatePropertyValue_callback key val addIfMissing" vault doc]
  by (auto simp: updatePropertyValue_def update_callback_tags split: option.splits)

subsection \<open>The loops of the forms\<close>

lemma fold_invariant:
  "(\<And>x s. x \<in> set xs \<Longrightarrow> P s \<Longrightarrow> P (f x s)) \<Longrightarrow> P s \<Longrightarrow> P (fold f xs s)"
  by (induction xs arbitrary: s) auto

lemma addFiles_tags:
  "''tags'' \<notin> def_key ` set props
     \<Longrightarrow> tagsOf (fst (addFiles props files (vault, n))) = tagsOf vault"
proof (induction files arbitrary: vault n)
  case Nil
  show ?case by simp
next
  case (Cons doc files)
  obtain vault' result where r: "addPropertiesToFile vault doc props = (vault', result)"
    by (cases "addPropertiesToFile vault doc props")
  with addPropertiesToFile_tags [OF Cons.prems, of vault doc] have "tagsOf vault' = tagsOf vault"
    by simp
  with Cons.IH [OF Cons.prems, of vault'] r show ?case by simp
qed

lemma removeFiles_tags:
  "''tags'' \<notin> set keys
     \<Longrightarrow> tagsOf (fst (removeFiles keys files (vault, n))) = tagsOf vault"
proof (induction files arbitrary: vault n)
  case Nil
  show ?case by simp
next
  case (Cons doc files)
  obtain vault' removed where r: "removePropertiesFromFile vault doc keys = (vault', removed)"
    by (cases "removePropertiesFromFile vault doc keys")
  with removePropertiesFromFile_tags [OF Cons.prems, of vault doc] have "tagsOf vault' = tagsOf vault"
    by simp
  with Cons.IH [OF Cons.prems, of vault'] r show ?case by simp
qed

lemma renameOne_tags:
  assumes "rename_originalKey rename \<noteq> ''tags''" "rename_newKey rename \<noteq> ''tags''"
  shows "tagsOf (fst (renameOne addTo doc rename st)) = tagsOf (fst st)"
proof -
  obtain vault r a where st: "st = (vault, r, a)" by (cases st)
  obtain vault1 renamed where r1:
    "renamePropertyKey vault doc (rename_originalKey rename) (rename_newKey rename) = (vault1, renamed)"
    by (cases "renamePropertyKey vault doc (rename_originalKey rename) (rename_newKey rename)")
  with renamePropertyKey_tags [OF assms, of vault doc] have t1: "tagsOf vault1 = tagsOf vault"
    by simp
  let ?props = "[\<lparr>def_key = rename_newKey rename, def_value = JString '''', def_type = Text\<rparr>]"
  obtain vault2 added where r2: "addPropertiesToFile vault1 doc ?props = (vault2, added)"
    by (cases "addPropertiesToFile vault1 doc ?props")
  with addPropertiesToFile_tags [of ?props vault1 doc] assms(2) have "tagsOf vault2 = tagsOf vault1"
    by simp
  with t1 st r1 r2 show ?thesis by simp
qed

lemma renameFiles_tags:
  assumes "''tags'' \<notin> rename_originalKey ` set renames" "''tags'' \<notin> rename_newKey ` set renames"
  shows "tagsOf (fst (renameFiles addTo renames files st)) = tagsOf (fst st)"
  unfolding renameFiles_def
proof (rule fold_invariant [where P = "\<lambda>s. tagsOf (fst s) = tagsOf (fst st)"])
  show "tagsOf (fst st) = tagsOf (fst st)" ..
next
  fix doc and s :: "vault \<times> nat \<times> nat"
  assume s: "tagsOf (fst s) = tagsOf (fst st)"
  show "tagsOf (fst (fold (renameOne addTo doc) renames s)) = tagsOf (fst st)"
  proof (rule fold_invariant [where P = "\<lambda>s. tagsOf (fst s) = tagsOf (fst st)"])
    show "tagsOf (fst s) = tagsOf (fst st)" by (rule s)
  next
    fix rename and t :: "vault \<times> nat \<times> nat"
    assume "rename \<in> set renames" "tagsOf (fst t) = tagsOf (fst st)"
    note step = this
    from step(1) assms have "rename_originalKey rename \<noteq> ''tags''" "rename_newKey rename \<noteq> ''tags''"
      by force+
    then have "tagsOf (fst (renameOne addTo doc rename t)) = tagsOf (fst t)"
      by (rule renameOne_tags)
    with step(2) show "tagsOf (fst (renameOne addTo doc rename t)) = tagsOf (fst st)"
      by simp
  qed
qed

lemma editValueOne_tags:
  assumes "vedit_key edit \<noteq> ''tags''"
  shows "tagsOf (fst (editValueOne addTo doc edit st)) = tagsOf (fst st)"
proof -
  obtain vault u a where st: "st = (vault, u, a)" by (cases st)
  obtain vault' result where r:
    "updatePropertyValue vault doc (vedit_key edit) (vedit_value edit) addTo = (vault', result)"
    by (cases "updatePropertyValue vault doc (vedit_key edit) (vedit_value edit) addTo")
  have "tagsOf (fst (updatePropertyValue vault doc (vedit_key edit) (vedit_value edit) addTo))
      = tagsOf vault"
    by (rule updatePropertyValue_tags [OF assms])
  with r have "tagsOf vault' = tagsOf vault"
    by simp
  with st r show ?thesis by simp
qed

lemma editValuesFiles_tags:
  assumes "''tags'' \<notin> vedit_key ` set edits"
  shows "tagsOf (fst (editValuesFiles addTo edits files st)) = tagsOf (fst st)"
  unfolding editValuesFiles_def
proof (rule fold_invariant [where P = "\<lambda>s. tagsOf (fst s) = tagsOf (fst st)"])
  show "tagsOf (fst st) = tagsOf (fst st)" ..
next
  fix doc and s :: "vault \<times> nat \<times> nat"
  assume s: "tagsOf (fst s) = tagsOf (fst st)"
  show "tagsOf (fst (fold (editValueOne addTo doc) edits s)) = tagsOf (fst st)"
  proof (rule fold_invariant [where P = "\<lambda>s. tagsOf (fst s) = tagsOf (fst st)"])
    show "tagsOf (fst s) = tagsOf (fst st)" by (rule s)
  next
    fix edit and t :: "vault \<times> nat \<times> nat"
    assume "edit \<in> set edits" "tagsOf (fst t) = tagsOf (fst st)"
    note step = this
    from step(1) assms have "vedit_key edit \<noteq> ''tags''"
      by force
    then have "tagsOf (fst (editValueOne addTo doc edit t)) = tagsOf (fst t)"
      by (rule editValueOne_tags)
    with step(2) show "tagsOf (fst (editValueOne addTo doc edit t)) = tagsOf (fst st)"
      by simp
  qed
qed

lemma add_handleSubmit_tags:
  "''tags'' \<notin> def_key ` set propertiesToAdd
     \<Longrightarrow> tagsOf (fst (add_handleSubmit propertiesToAdd files vault)) = tagsOf vault"
proof -
  assume "''tags'' \<notin> def_key ` set propertiesToAdd"
  then have "''tags'' \<notin> def_key ` set (filter (\<lambda>p. length (def_key p) > 0) propertiesToAdd)"
    by force
  from addFiles_tags [OF this, of files vault 0] show ?thesis
    by (auto simp: add_handleSubmit_def Let_def split: prod.splits)
qed

lemma remove_handleSubmit_tags:
  "''tags'' \<notin> set selectedKeys
     \<Longrightarrow> tagsOf (fst (remove_handleSubmit selectedKeys files vault)) = tagsOf vault"
  using removeFiles_tags [of selectedKeys files vault 0]
  by (auto simp: remove_handleSubmit_def split: prod.splits)

lemma rename_handleSubmit_tags:
  assumes "''tags'' \<notin> rename_originalKey ` set propertyRenames"
    "''tags'' \<notin> rename_newKey ` set propertyRenames"
  shows "tagsOf (fst (rename_handleSubmit propertyRenames addTo files vault)) = tagsOf vault"
proof -
  have "''tags'' \<notin> rename_originalKey ` set (enabledRenames propertyRenames)"
    "''tags'' \<notin> rename_newKey ` set (enabledRenames propertyRenames)"
    using assms by (auto simp: enabledRenames_def)
  from renameFiles_tags [OF this, of addTo files "(vault, 0, 0)"] show ?thesis
    by (auto simp: rename_handleSubmit_def split: prod.splits)
qed

lemma editValues_handleSubmit_tags:
  assumes "''tags'' \<notin> vedit_key ` set propertyEdits"
  shows "tagsOf (fst (editValues_handleSubmit propertyEdits addTo files vault)) = tagsOf vault"
proof -
  have "''tags'' \<notin> vedit_key ` set (filter vedit_enabled propertyEdits)"
    using assms by auto
  from editValuesFiles_tags [OF this, of addTo files "(vault, 0, 0)"] show ?thesis
    by (auto simp: editValues_handleSubmit_def Let_def split: prod.splits)
qed

text \<open>
  C6, as stated, fails: a key typed by the user is written like any other. The
  add form with the key \<^verbatim>\<open>tags\<close> gives a document a \<^verbatim>\<open>tags\<close> entry, and a
  rename to \<^verbatim>\<open>tags\<close> overwrites the tag list of a document.
\<close>

theorem tags_written_counterexample:
  "fst (add_handleSubmit [\<lparr>def_key = ''tags'', def_value = JString ''inbox'', def_type = Text\<rparr>]
          [b_md] sample_vault) ''b.md''
     = Some [(''tags'', JString ''inbox'')]
   \<and> sample_vault ''b.md'' = Some []
   \<and> fst (rename_handleSubmit
          [\<lparr>rename_originalKey = ''status'', rename_newKey = ''tags'', rename_enabled = True\<rparr>]
          False [t_md] tagged_vault) ''t.md''
     = Some [(''tags'', JString ''draft'')]
   \<and> tagged_vault ''t.md'' = Some [(''tags'', JArray [JString ''inbox'']), (''status'', JString ''draft'')]"
  by (simp add: add_handleSubmit_def addPropertiesToFile_def processFrontMatter_def block_defs
        rename_handleSubmit_def enabledRenames_def renameFiles_def renamePropertyKey_def
        renamePropertyKey_callback_def sample_vault_def tagged_vault_def b_md_def t_md_def)

text \<open>
  C6, amended. The aggregation never holds the key \<^verbatim>\<open>tags\<close>. The remove form and
  the form that edits values take their keys from the aggregation, and leave
  the \<^verbatim>\<open>tags\<close> entry of every document as it is; so does the rename form when no
  new name is \<^verbatim>\<open>tags\<close>, and the add form when no key to add is \<^verbatim>\<open>tags\<close>.
\<close>

theorem tags_reserved:
  "\<not> hasOwn ''tags'' (loadExistingProperties vault0 files0)
   \<and> (set selectedKeys \<subseteq> fst ` set (loadExistingProperties vault0 files0) \<longrightarrow>
        tagsOf (fst (remove_handleSubmit selectedKeys files vault)) = tagsOf vault)
   \<and> (vedit_key ` set valueEdits \<subseteq> fst ` set (loadExistingProperties vault0 files0) \<longrightarrow>
        tagsOf (fst (editValues_handleSubmit valueEdits addTo files vault)) = tagsOf vault)
   \<and> (rename_originalKey ` set propertyRenames \<subseteq> fst ` set (loadExistingProperties vault0 files0)
        \<and> ''tags'' \<notin> rename_newKey ` set propertyRenames \<longrightarrow>
        tagsOf (fst (rename_handleSubmit propertyRenames addTo files vault)) = tagsOf vault)
   \<and> (''tags'' \<notin> def_key ` set propertiesToAdd \<longrightarrow>
        tagsOf (fst (add_handleSubmit propertiesToAdd files vault)) = tagsOf vault)"
proof -
  have no: "''tags'' \<notin> fst ` set (loadExistingProperties vault0 files0)"
    using loadExistingProperties_tags [of vault0 files0] by (simp add: hasOwn_def)
  show ?thesis
  proof (intro conjI impI)
    show "\<not> hasOwn ''tags'' (loadExistingProperties vault0 files0)"
      by (rule loadExistingProperties_tags)
  next
    assume "set selectedKeys \<subseteq> fst ` set (loadExistingProperties vault0 files0)"
    with no have "''tags'' \<notin> set selectedKeys" by blast
    then show "tagsOf (fst (remove_handleSubmit selectedKeys files vault)) = tagsOf vault"
      by (rule remove_handleSubmit_tags)
  next
    assume "vedit_key ` set valueEdits \<subseteq> fst ` set (loadExistingProperties vault0 files0)"
    with no have "''tags'' \<notin> vedit_key ` set valueEdits" by blast
    then show "tagsOf (fst (editValues_handleSubmit valueEdits addTo files vault)) = tagsOf vault"
      by (rule editValues_handleSubmit_tags)
  next
    assume a: "rename_originalKey ` set propertyRenames \<subseteq> fst ` set (loadExistingProperties vault0 files0)
        \<and> ''tags'' \<notin> rename_newKey ` set propertyRenames"
    with no have "''tags'' \<notin> rename_originalKey ` set propertyRenames" by blast
    with a show "tagsOf (fst (rename_handleSubmit propertyRenames addTo files vault)) = tagsOf vault"
      by (simp add: rename_handleSubmit_tags)
  next
    assume "''tags'' \<notin> def_key ` set propertiesToAdd"
    then show "tagsOf (fst (add_handleSubmit propertiesToAdd files vault)) = tagsOf vault"
      by (rule add_handleSubmit_tags)
  qed
qed


theorem tags_reserved_witness:
  "set [''status''] \<subseteq> fst ` set (loadExistingProperties tagged_vault [t_md])
   \<and> tagsOf (fst (remove_handleSubmit [''status''] [t_md] tagged_vault)) = tagsOf tagged_vault
   \<and> vedit_key ` set [\<lparr>vedit_key = ''status'', vedit_enabled = True, vedit_type = Text,
          vedit_value = JString ''final'', vedit_originalValue = JString ''draft''\<rparr>]
       \<subseteq> fst ` set (loadExistingProperties tagged_vault [t_md])
   \<and> tagsOf (fst (editValues_handleSubmit
         [\<lparr>vedit_key = ''status'', vedit_enabled = True, vedit_type = Text,
           vedit_value = JString ''final'', vedit_originalValue = JString ''draft''\<rparr>]
         True [t_md] tagged_vault)) = tagsOf tagged_vault
   \<and> rename_originalKey ` set [\<lparr>rename_originalKey = ''status'', rename_newKey = ''state'',
          rename_enabled = True\<rparr>]
       \<subseteq> fst ` set (loadExistingProperties tagged_vault [t_md])
   \<and> ''tags'' \<notin> rename_newKey ` set [\<lparr>rename_originalKey = ''status'', rename_newKey = ''state'',
          rename_enabled = True\<rparr>]
   \<and> tagsOf (fst (rename_handleSubmit
         [\<lparr>rename_originalKey = ''status'', rename_newKey = ''state'', rename_enabled = True\<rparr>]
         True [t_md] tagged_vault)) = tagsOf tagged_vault
   \<and> ''tags'' \<notin> def_key ` set [\<lparr>def_key = ''priority'', def_value = JString ''high'', def_type = Text\<rparr>]
   \<and> tagsOf (fst (add_handleSubmit
         [\<lparr>def_key = ''priority'', def_value = JString ''high'', def_type = Text\<rparr>]
         [t_md] tagged_vault)) = tagsOf tagged_vault
   \<and> tagsOf tagged_vault ''t.md'' = Some (Some (JArray [JString ''inbox'']))"
proof -
  have agg: "loadExistingProperties tagged_vault [t_md]
      = [(''status'', \<lparr>ex_key = ''status'', ex_values = [JString ''draft''], ex_types = [Text]\<rparr>)]"
    by (simp add: tagged_vault_def t_md_def getPropertiesFromFile_def processFrontMatter_def
        loadExistingProperties_def valuesAdd_def typesAdd_def date_regex_def block_defs)
  show ?thesis
    using tags_reserved [of tagged_vault "[t_md]" "[''status'']" "[t_md]" tagged_vault
      "[\<lparr>vedit_key = ''status'', vedit_enabled = True, vedit_type = Text,
         vedit_value = JString ''final'', vedit_originalValue = JString ''draft''\<rparr>]"
      True
      "[\<lparr>rename_originalKey = ''status'', rename_newKey = ''state'', rename_enabled = True\<rparr>]"
      "[\<lparr>def_key = ''priority'', def_value = JString ''high'', def_type = Text\<rparr>]"]
    by (simp add: agg) (simp add: tagsOf_def tagged_vault_def)
qed


section \<open>Empty properties\<close>

text \<open>
  C7. A document with \<^verbatim>\<open>{status: null, title: "Plan"}\<close>: the type guard rejects
  \<^verbatim>\<open>null\<close>, so \<^verbatim>\<open>getPropertiesFromFile\<close> drops the key, and the aggregation never
  records \<^verbatim>\<open>status\<close>.
\<close>

theorem null_property_not_aggregated:
  "\<not> isPropertyValue JNull
   \<and> getPropertiesFromFile null_vault c_md = [(''title'', JString ''Plan'')]
   \<and> loadExistingProperties null_vault [c_md]
       = [(''title'', \<lparr>ex_key = ''title'', ex_values = [JString ''Plan''], ex_types = [Text]\<rparr>)]
   \<and> \<not> hasOwn ''status'' (loadExistingProperties null_vault [c_md])"
  by (simp add: null_vault_def c_md_def getPropertiesFromFile_def processFrontMatter_def
        loadExistingProperties_def valuesAdd_def typesAdd_def hasOwn_def setProp_def date_regex_def)


end
